theory Spec2Isabelle
  imports Main
begin

section \<open>The document: elements, form controls, questions\<close>

text \<open>
  The survey form of \<^verbatim>\<open>survey-form.js\<close> keeps its answers in the page itself. The
  structure of the page is fixed when the form is generated; the code only changes the
  class \<^verbatim>\<open>show\<close> of elements and the \<^verbatim>\<open>checked\<close>, \<^verbatim>\<open>value\<close> and
  \<^verbatim>\<open>selectedIndex\<close> properties of controls. The model is therefore a store:
  elements are addressed by their \<^verbatim>\<open>id\<close> (as \<^verbatim>\<open>document.getElementById\<close> does),
  controls are listed in document order, and each node carries the ids of its ancestors,
  nearest first.  Highlight classes of labels, the text of the toggle icons, scrolling and
  keyboard focus are presentation only and are not part of the state.

  The generated page gives every section, question and "other" box an id of its own,
  and these are the only elements of class \<^verbatim>\<open>conditional\<close> or \<^verbatim>\<open>other-input\<close>;
  the condition table and the table of "other" fields are JavaScript objects, whose
  entries are listed here in the order \<^verbatim>\<open>Object.entries\<close> yields them.  A select is
  described by its \<^verbatim>\<open>selectedIndex\<close>; every generated select has a first option.
\<close>

datatype input_type = Radio | Checkbox | Text | Number | Date

datatype tag = INPUT input_type | TEXTAREA | SELECT

record control =
  c_tag :: tag
  c_name :: string
  c_value :: string
  c_checked :: bool
  c_selectedIndex :: int
  c_inside :: "string list"
  c_in_options :: bool
  c_in_scale_option :: bool

record element =
  el_conditional :: bool
  el_show :: bool
  el_other_input :: bool
  el_ancestors :: "string list"

record question =
  q_id :: string
  q_name :: string
  q_type :: string
  q_scaleMax :: "int option"

record cond =
  targetId :: string
  showValues :: "int list"
  isSection :: bool

datatype select_target =
    SelOption question
  | SelScale question
  | SelTableRow question string

datatype event =
    QuestionChange int int int
  | TableRowChange int
  | DigitBufferChange string
  | ReachEnd

text \<open>
  The inline message under the identifier field; the only text the modelled code shows
  there asks the operator to enter the identifier first.
\<close>

datatype message = EnterIdFirst

record form =
  questionIndex :: int
  tableRowIndex :: int
  digitBuffer :: string
  digitTimer :: "(select_target \<times> nat) option"
  pendingSelect :: "select_target option"
  questionList :: "question list"
  conditionMap :: "(string \<times> cond list) list"
  tableConfigs :: "(string \<times> string list) list"
  otherFieldMap :: "(string \<times> string list) list"
  respondentId :: "nat list option"
  idError :: "message option"
  visibilityCache :: "string \<rightharpoonup> bool"
  manualOverrides :: "string list"
  showAll :: bool
  elems :: "string \<rightharpoonup> element"
  controls :: "control list"
  emitted :: "event list"

subsection \<open>\<^verbatim>\<open>parseInt(value, 10)\<close>\<close>

text \<open>
  \<^verbatim>\<open>parseInt\<close> skips leading white space, reads an optional sign and the longest prefix
  of decimal digits; without a digit the result is \<^verbatim>\<open>NaN\<close>, here \<open>None\<close>.
\<close>

definition is_ws :: "char \<Rightarrow> bool" where
  "is_ws c = (c \<in> set [CHR '' '', CHR 0x09, CHR 0x0A, CHR 0x0B, CHR 0x0C, CHR 0x0D])"

definition is_digit :: "char \<Rightarrow> bool" where
  "is_digit c = (c \<in> set ''0123456789'')"

definition digit_of :: "char \<Rightarrow> nat" where
  "digit_of c = of_char c - 48"

definition digits_value :: "string \<Rightarrow> nat" where
  "digits_value ds = foldl (\<lambda>a c. 10 * a + digit_of c) 0 ds"

definition parseInt10 :: "string \<Rightarrow> int option" where
  "parseInt10 str =
     (let t = dropWhile is_ws str;
          neg = (t \<noteq> [] \<and> hd t = CHR ''-'');
          r = (if t \<noteq> [] \<and> (hd t = CHR ''-'' \<or> hd t = CHR ''+'') then tl t else t);
          ds = takeWhile is_digit r
      in if ds = [] then None
         else Some (if neg then - int (digits_value ds) else int (digits_value ds)))"

text \<open>\<^verbatim>\<open>showValues.includes(parseInt(v, 10))\<close>: \<^verbatim>\<open>NaN\<close> is in no trigger list.\<close>

definition includes_parsed :: "int list \<Rightarrow> string \<Rightarrow> bool" where
  "includes_parsed vals v = (case parseInt10 v of None \<Rightarrow> False | Some n \<Rightarrow> n \<in> set vals)"

subsection \<open>Selectors\<close>

definition is_input :: "control \<Rightarrow> bool" where
  "is_input c = (case c_tag c of INPUT ty \<Rightarrow> True | _ \<Rightarrow> False)"

text \<open>The pseudo-class \<^verbatim>\<open>:checked\<close> on an \<^verbatim>\<open>input\<close>: a checked radio button or checkbox.\<close>

definition is_checked :: "control \<Rightarrow> bool" where
  "is_checked c = ((c_tag c = INPUT Radio \<or> c_tag c = INPUT Checkbox) \<and> c_checked c)"

text \<open>\<^verbatim>\<open>document.querySelectorAll('input[name="N"]:checked')\<close>\<close>

definition checkedInputs :: "form \<Rightarrow> string \<Rightarrow> control list" where
  "checkedInputs s name = filter (\<lambda>c. c_name c = name \<and> is_checked c) (controls s)"

text \<open>\<^verbatim>\<open>document.querySelector('input[type="checkbox"][name="N"]')\<close> finds something.\<close>

definition hasCheckbox :: "form \<Rightarrow> string \<Rightarrow> bool" where
  "hasCheckbox s name = list_ex (\<lambda>c. c_tag c = INPUT Checkbox \<and> c_name c = name) (controls s)"

definition fieldTypeOf :: "form \<Rightarrow> string \<Rightarrow> string" where
  "fieldTypeOf s parentId = (if hasCheckbox s parentId then ''checkbox'' else ''radio'')"

text \<open>
  The element of a condition entry: \<^verbatim>\<open>getElementById(targetId)\<close> for a section,
  \<^verbatim>\<open>getElementById(`q_${targetId}`)\<close> for a question.
\<close>

definition target_el :: "cond \<Rightarrow> string" where
  "target_el c = (if isSection c then targetId c else ''q_'' @ targetId c)"

section \<open>ConditionEvaluator\<close>

subsection \<open>\<^verbatim>\<open>_clearInputs\<close>\<close>

definition clear_control :: "control \<Rightarrow> control" where
  "clear_control c =
     (case c_tag c of
        INPUT ty \<Rightarrow>
          c\<lparr>c_checked := (if is_checked c then False else c_checked c),
            c_value := (if ty = Text \<or> ty = Number then [] else c_value c)\<rparr>
      | TEXTAREA \<Rightarrow> c\<lparr>c_value := []\<rparr>
      | SELECT \<Rightarrow> c\<lparr>c_selectedIndex := 0\<rparr>)"

definition hide_other_input :: "string \<Rightarrow> element \<Rightarrow> element" where
  "hide_other_input container e =
     (if el_other_input e \<and> container \<in> set (el_ancestors e) then e\<lparr>el_show := False\<rparr> else e)"

definition clearInputs :: "string \<Rightarrow> form \<Rightarrow> form" where
  "clearInputs container s =
     s\<lparr>controls := map (\<lambda>c. if container \<in> set (c_inside c) then clear_control c else c) (controls s),
       elems := (\<lambda>i. map_option (hide_other_input container) (elems s i))\<rparr>"

subsection \<open>\<^verbatim>\<open>evaluate\<close>, \<^verbatim>\<open>_evaluateRadio\<close>, \<^verbatim>\<open>_evaluateCheckbox\<close>\<close>

text \<open>
  The two loops of the source have the same body once \<^verbatim>\<open>shouldShow\<close> is computed:
  skip in show-all mode or under a manual override, skip when the cache already holds
  \<^verbatim>\<open>shouldShow\<close>, skip when the element is missing, otherwise store the value in the
  cache, set the class \<^verbatim>\<open>show\<close> and clear the inputs when hiding.
\<close>

definition updateTarget :: "bool \<Rightarrow> cond \<Rightarrow> form \<Rightarrow> form" where
  "updateTarget shouldShow c s =
     (if showAll s \<or> targetId c \<in> set (manualOverrides s) then s
      else if visibilityCache s (targetId c) = Some shouldShow then s
      else case elems s (target_el c) of
             None \<Rightarrow> s
           | Some e \<Rightarrow>
               (let s1 = s\<lparr>visibilityCache := (visibilityCache s)(targetId c \<mapsto> shouldShow),
                           elems := (elems s)(target_el c \<mapsto> e\<lparr>el_show := shouldShow\<rparr>)\<rparr>
                in if shouldShow then s1 else clearInputs (target_el c) s1))"

text \<open>\<^verbatim>\<open>checked?.value || ''\<close> of the first checked input of that name.\<close>

definition radioValue :: "form \<Rightarrow> string \<Rightarrow> string" where
  "radioValue s name = (case checkedInputs s name of [] \<Rightarrow> [] | c # _ \<Rightarrow> c_value c)"

definition shouldShowRadio :: "string \<Rightarrow> cond \<Rightarrow> bool" where
  "shouldShowRadio v c = (v \<noteq> [] \<and> includes_parsed (showValues c) v)"

definition shouldShowCheckbox :: "string list \<Rightarrow> cond \<Rightarrow> bool" where
  "shouldShowCheckbox vs c = list_ex (includes_parsed (showValues c)) vs"

definition evaluateRadio :: "string \<Rightarrow> cond list \<Rightarrow> form \<Rightarrow> form" where
  "evaluateRadio name conditions s =
     (let v = radioValue s name
      in fold (\<lambda>c. updateTarget (shouldShowRadio v c) c) conditions s)"

definition evaluateCheckbox :: "string \<Rightarrow> cond list \<Rightarrow> form \<Rightarrow> form" where
  "evaluateCheckbox name conditions s =
     (let vs = map c_value (checkedInputs s name)
      in fold (\<lambda>c. updateTarget (shouldShowCheckbox vs c) c) conditions s)"

definition evaluate :: "string \<Rightarrow> string \<Rightarrow> form \<Rightarrow> form" where
  "evaluate fieldName fieldType s =
     (case map_of (conditionMap s) fieldName of
        None \<Rightarrow> s
      | Some conditions \<Rightarrow>
          if fieldType = ''checkbox'' then evaluateCheckbox fieldName conditions s
          else evaluateRadio fieldName conditions s)"

subsection \<open>\<^verbatim>\<open>isVisible\<close>\<close>

text \<open>
  A question is reported visible unless it is itself a hidden conditional, or
  \<^verbatim>\<open>questionEl.parentElement?.closest('.conditional')\<close>, the nearest proper ancestor of
  class \<^verbatim>\<open>conditional\<close>, is hidden.
\<close>

definition has_class_conditional :: "form \<Rightarrow> string \<Rightarrow> bool" where
  "has_class_conditional s i = (case elems s i of None \<Rightarrow> False | Some e \<Rightarrow> el_conditional e)"

definition has_class_show :: "form \<Rightarrow> string \<Rightarrow> bool" where
  "has_class_show s i = (case elems s i of None \<Rightarrow> False | Some e \<Rightarrow> el_show e)"

definition isVisible :: "form \<Rightarrow> string \<Rightarrow> bool" where
  "isVisible s questionEl =
     (case elems s questionEl of
        None \<Rightarrow> False
      | Some e \<Rightarrow>
          if el_conditional e \<and> \<not> el_show e then False
          else (case find (has_class_conditional s) (el_ancestors e) of
                  Some conditionalParent \<Rightarrow> has_class_show s conditionalParent
                | None \<Rightarrow> True))"

subsection \<open>Manual overrides\<close>

text \<open>
  \<^verbatim>\<open>_manualOverrides\<close> is a JavaScript \<^verbatim>\<open>Map\<close> whose only value is \<^verbatim>\<open>'open'\<close>:
  the list of its keys in insertion order.  \<^verbatim>\<open>_visibilityCache\<close> is never iterated:
  a partial function.
\<close>

definition map_set :: "string \<Rightarrow> string list \<Rightarrow> string list" where
  "map_set k ks = (if k \<in> set ks then ks else ks @ [k])"

definition map_delete :: "string \<Rightarrow> string list \<Rightarrow> string list" where
  "map_delete k ks = removeAll k ks"

text \<open>\<^verbatim>\<open>targetEl.classList.add('show')\<close> on the element with that id.\<close>

definition addShow :: "string \<Rightarrow> form \<Rightarrow> form" where
  "addShow i s =
     (case elems s i of
        None \<Rightarrow> s
      | Some e \<Rightarrow> s\<lparr>elems := (elems s)(i \<mapsto> e\<lparr>el_show := True\<rparr>)\<rparr>)"

text \<open>\<^verbatim>\<open>_reevaluateForTarget\<close>: the first parent, in table order, with an entry for the target.\<close>

definition reevaluateForTarget :: "string \<Rightarrow> form \<Rightarrow> form" where
  "reevaluateForTarget t s =
     (case find (\<lambda>(parentId, conditions). list_ex (\<lambda>c. targetId c = t) conditions) (conditionMap s) of
        None \<Rightarrow> s
      | Some (parentId, conditions) \<Rightarrow> evaluate parentId (fieldTypeOf s parentId) s)"

definition toggleManual :: "string \<Rightarrow> form \<Rightarrow> form" where
  "toggleManual t s =
     (let targetEl = (if elems s (''q_'' @ t) \<noteq> None then Some (''q_'' @ t)
                      else if elems s t \<noteq> None then Some t else None)
      in case targetEl of
           None \<Rightarrow> s
         | Some i \<Rightarrow>
             if t \<in> set (manualOverrides s)
             then reevaluateForTarget t
                    (s\<lparr>manualOverrides := map_delete t (manualOverrides s),
                       visibilityCache := (visibilityCache s)(t := None)\<rparr>)
             else addShow i (s\<lparr>manualOverrides := map_set t (manualOverrides s)\<rparr>))"

definition openBranch :: "cond \<Rightarrow> form \<Rightarrow> form" where
  "openBranch c s =
     (case elems s (target_el c) of
        None \<Rightarrow> s
      | Some e \<Rightarrow>
          if \<not> el_conditional e then s
          else if \<not> el_show e
          then addShow (target_el c) (s\<lparr>manualOverrides := map_set (targetId c) (manualOverrides s)\<rparr>)
          else s)"

definition openBranchesForParent :: "string \<Rightarrow> form \<Rightarrow> form" where
  "openBranchesForParent parentId s =
     (case map_of (conditionMap s) parentId of
        None \<Rightarrow> s
      | Some conditions \<Rightarrow> fold openBranch conditions s)"

definition closeBranch :: "cond \<Rightarrow> bool \<times> form \<Rightarrow> bool \<times> form" where
  "closeBranch c = (\<lambda>(closed, s).
     if targetId c \<in> set (manualOverrides s)
     then (True, s\<lparr>manualOverrides := map_delete (targetId c) (manualOverrides s),
                    visibilityCache := (visibilityCache s)(targetId c := None)\<rparr>)
     else (closed, s))"

definition closeBranchesForParent :: "string \<Rightarrow> form \<Rightarrow> form" where
  "closeBranchesForParent parentId s =
     (case map_of (conditionMap s) parentId of
        None \<Rightarrow> s
      | Some conditions \<Rightarrow>
          (case fold closeBranch conditions (False, s) of
             (closed, s1) \<Rightarrow>
               if closed then evaluate parentId (fieldTypeOf s1 parentId) s1 else s1))"

subsection \<open>\<^verbatim>\<open>setShowAll\<close> and \<^verbatim>\<open>clearCache\<close>\<close>

definition showAllTarget :: "bool \<Rightarrow> cond \<Rightarrow> form \<Rightarrow> form" where
  "showAllTarget b c s =
     (case elems s (target_el c) of
        None \<Rightarrow> s
      | Some e \<Rightarrow>
          if b then addShow (target_el c) s
          else s\<lparr>visibilityCache := (visibilityCache s)(targetId c := None)\<rparr>)"


definition clearCache :: "form \<Rightarrow> form" where
  "clearCache s = s\<lparr>visibilityCache := Map.empty, manualOverrides := []\<rparr>"

subsection \<open>\<^verbatim>\<open>isConditionMet\<close> and \<^verbatim>\<open>getForcedOverrideIds\<close>\<close>

text \<open>The test made for one entry of the table whose target is the one asked for.\<close>

definition entryMet :: "form \<Rightarrow> string \<Rightarrow> cond \<Rightarrow> bool" where
  "entryMet s parentId c =
     (if hasCheckbox s parentId
      then list_ex (includes_parsed (showValues c)) (map c_value (checkedInputs s parentId))
      else (case checkedInputs s parentId of
              [] \<Rightarrow> False
            | checked # _ \<Rightarrow> includes_parsed (showValues c) (c_value checked)))"

definition isConditionMet :: "form \<Rightarrow> string \<Rightarrow> bool" where
  "isConditionMet s t =
     list_ex (\<lambda>(parentId, conditions).
        list_ex (\<lambda>c. targetId c = t \<and> entryMet s parentId c) conditions) (conditionMap s)"

definition getForcedOverrideIds :: "form \<Rightarrow> string list" where
  "getForcedOverrideIds s = filter (\<lambda>t. \<not> isConditionMet s t) (manualOverrides s)"

section \<open>FormState\<close>

definition emit :: "event \<Rightarrow> form \<Rightarrow> form" where
  "emit ev s = s\<lparr>emitted := emitted s @ [ev]\<rparr>"

text \<open>\<^verbatim>\<open>this.questionList[this.questionIndex] || null\<close>\<close>

definition questionAt :: "form \<Rightarrow> int \<Rightarrow> question option" where
  "questionAt s i =
     (if 0 \<le> i \<and> i < int (length (questionList s)) then Some (questionList s ! nat i) else None)"

definition getCurrentQuestion :: "form \<Rightarrow> question option" where
  "getCurrentQuestion s = questionAt s (questionIndex s)"

text \<open>
  \<^verbatim>\<open>getTableConfig\<close> returns the row names of the current table question;
  a configuration without \<^verbatim>\<open>rowNames\<close> behaves like one with no rows.
\<close>

definition getTableConfig :: "form \<Rightarrow> string list option" where
  "getTableConfig s =
     (case getCurrentQuestion s of
        None \<Rightarrow> None
      | Some q \<Rightarrow> if q_type q \<noteq> ''table'' then None else map_of (tableConfigs s) (q_name q))"

text \<open>\<^verbatim>\<open>(tableConfig?.rowNames?.length || 1) - 1\<close>\<close>

definition maxRowOf :: "string list option \<Rightarrow> int" where
  "maxRowOf cfg =
     (case cfg of
        None \<Rightarrow> 0
      | Some rowNames \<Rightarrow> (if length rowNames = 0 then 1 else int (length rowNames)) - 1)"

definition setQuestionIndex :: "int \<Rightarrow> int option \<Rightarrow> form \<Rightarrow> form" where
  "setQuestionIndex index tableRow s =
     (if index < -1 \<or> index \<ge> int (length (questionList s)) then s
      else
        (let oldIndex = questionIndex s;
             s1 = s\<lparr>questionIndex := index\<rparr>;
             row = (case getCurrentQuestion s1 of
                      None \<Rightarrow> 0
                    | Some q \<Rightarrow>
                        if q_type q = ''table''
                        then (case tableRow of None \<Rightarrow> 0 | Some r \<Rightarrow> r)
                        else 0);
             s2 = s1\<lparr>tableRowIndex := row\<rparr>
         in emit (QuestionChange oldIndex index row) s2))"

definition setTableRowIndex :: "int \<Rightarrow> form \<Rightarrow> form" where
  "setTableRowIndex index s =
     (case getTableConfig s of
        None \<Rightarrow> s
      | Some rowNames \<Rightarrow>
          if index < 0 \<or> index > maxRowOf (Some rowNames) then s
          else emit (TableRowChange index) (s\<lparr>tableRowIndex := index\<rparr>))"

text \<open>
  \<^verbatim>\<open>!!this.elements.respondentId?.value.trim()\<close>.  The value of the identifier field
  is a JavaScript string, kept as its UTF-16 code units.  \<^verbatim>\<open>String.prototype.trim\<close>
  strips from both ends the white space and the line terminators of ECMAScript: tab,
  line feed, vertical tab, form feed, carriage return, space, the no-break space U+00A0,
  U+1680, U+2000 to U+200A, the line and paragraph separators U+2028 and U+2029, U+202F,
  U+205F, the ideographic space U+3000 and the byte order mark U+FEFF.  The identifier is
  valid when something is left.  The field \<^verbatim>\<open>respondentId\<close> of the state is the value
  of the element found by \<^verbatim>\<open>getElementById\<close>, and \<^const>\<open>None\<close> on a page without
  it: there \<^verbatim>\<open>?.\<close> gives \<^verbatim>\<open>undefined\<close> and no identifier is valid.
\<close>

definition jsWhiteSpace :: "nat \<Rightarrow> bool" where
  "jsWhiteSpace u =
     (u \<in> set [0x0009, 0x000A, 0x000B, 0x000C, 0x000D, 0x0020, 0x00A0, 0x1680,
                0x2028, 0x2029, 0x202F, 0x205F, 0x3000, 0xFEFF]
      \<or> (0x2000 \<le> u \<and> u \<le> 0x200A))"

definition jsTrim :: "nat list \<Rightarrow> nat list" where
  "jsTrim v = rev (dropWhile jsWhiteSpace (rev (dropWhile jsWhiteSpace v)))"


definition clearDigitTimer :: "form \<Rightarrow> form" where
  "clearDigitTimer s = s\<lparr>digitTimer := None\<rparr>"

definition setDigitBuffer :: "string \<Rightarrow> form \<Rightarrow> form" where
  "setDigitBuffer digit s =
     emit (DigitBufferChange digit) ((clearDigitTimer s)\<lparr>digitBuffer := digit\<rparr>)"

definition clearDigitBuffer :: "form \<Rightarrow> form" where
  "clearDigitBuffer s = emit (DigitBufferChange []) ((clearDigitTimer s)\<lparr>digitBuffer := []\<rparr>)"

text \<open>\<^verbatim>\<open>appendDigitBuffer\<close> returns the combined string and empties the buffer.\<close>

definition appendDigitBuffer :: "string \<Rightarrow> form \<Rightarrow> string \<times> form" where
  "appendDigitBuffer digit s = (digitBuffer s @ digit, clearDigitBuffer s)"

definition setDigitTimer :: "select_target \<Rightarrow> nat \<Rightarrow> form \<Rightarrow> form" where
  "setDigitTimer callback delay s = (clearDigitTimer s)\<lparr>digitTimer := Some (callback, delay)\<rparr>"

section \<open>Navigator\<close>

definition visibleAt :: "form \<Rightarrow> int \<Rightarrow> bool" where
  "visibleAt s i = (case questionAt s i of None \<Rightarrow> False | Some q \<Rightarrow> isVisible s (q_id q))"

function nextVisible :: "form \<Rightarrow> int \<Rightarrow> int option" where
  "nextVisible s nextIndex =
     (if nextIndex < int (length (questionList s))
      then (if visibleAt s nextIndex then Some nextIndex else nextVisible s (nextIndex + 1))
      else None)"
  by pat_completeness auto
termination
  by (relation "measure (\<lambda>(s, i). nat (int (length (questionList s)) - i))") auto

function prevVisible :: "form \<Rightarrow> int \<Rightarrow> int option" where
  "prevVisible s prevIndex =
     (if prevIndex \<ge> 0
      then (if visibleAt s prevIndex then Some prevIndex else prevVisible s (prevIndex - 1))
      else None)"
  by pat_completeness auto
termination
  by (relation "measure (\<lambda>(s, i). nat (i + 1))") auto

declare nextVisible.simps [simp del]
declare prevVisible.simps [simp del]

definition isTable :: "question option \<Rightarrow> bool" where
  "isTable q = (case q of None \<Rightarrow> False | Some x \<Rightarrow> q_type x = ''table'')"

definition moveNext :: "form \<Rightarrow> form" where
  "moveNext s =
     (if isTable (getCurrentQuestion s) \<and> tableRowIndex s < maxRowOf (getTableConfig s)
      then setTableRowIndex (tableRowIndex s + 1) s
      else (case nextVisible s (questionIndex s + 1) of
              Some nextIndex \<Rightarrow> setQuestionIndex nextIndex None s
            | None \<Rightarrow> emit ReachEnd s))"

definition movePrev :: "form \<Rightarrow> form" where
  "movePrev s =
     (if isTable (getCurrentQuestion s) \<and> tableRowIndex s > 0
      then setTableRowIndex (tableRowIndex s - 1) s
      else (case prevVisible s (questionIndex s - 1) of
              Some prevIndex \<Rightarrow>
                if isTable (questionAt s prevIndex)
                then setQuestionIndex prevIndex
                       (Some (maxRowOf (case questionAt s prevIndex of
                                          None \<Rightarrow> None
                                        | Some q \<Rightarrow> map_of (tableConfigs s) (q_name q)))) s
                else setQuestionIndex prevIndex None s
            | None \<Rightarrow> setQuestionIndex (-1) None s))"


section \<open>AnswerHandler\<close>

subsection \<open>The inputs a digit can select\<close>

text \<open>\<^verbatim>\<open>input.closest('.question[data-name]')\<close>; the question list holds all such elements.\<close>

definition closestQuestion :: "form \<Rightarrow> control \<Rightarrow> string option" where
  "closestQuestion s c = find (\<lambda>i. i \<in> set (map q_id (questionList s))) (c_inside c)"

text \<open>
  \<^verbatim>\<open>_getOptionCache\<close>: the radio buttons and checkboxes inside \<^verbatim>\<open>.options\<close> whose
  closest question is the given one, as positions in the document.  The source memoises
  the list per question name; the structure of the page never changes, so the memo holds
  what the query returns.
\<close>

definition optionInputs :: "form \<Rightarrow> question \<Rightarrow> nat list" where
  "optionInputs s q =
     filter (\<lambda>i. (c_tag (controls s ! i) = INPUT Radio \<or> c_tag (controls s ! i) = INPUT Checkbox)
                  \<and> c_in_options (controls s ! i)
                  \<and> closestQuestion s (controls s ! i) = Some (q_id q))
       [0 ..< length (controls s)]"

text \<open>\<^verbatim>\<open>question.querySelectorAll('.scale-option input')\<close>\<close>

definition scaleInputs :: "form \<Rightarrow> question \<Rightarrow> nat list" where
  "scaleInputs s q =
     filter (\<lambda>i. is_input (controls s ! i) \<and> c_in_scale_option (controls s ! i)
                  \<and> q_id q \<in> set (c_inside (controls s ! i)))
       [0 ..< length (controls s)]"

text \<open>\<^verbatim>\<open>question.querySelectorAll(`input[name="${rowName}"]`)\<close>\<close>

definition tableInputs :: "form \<Rightarrow> question \<Rightarrow> string \<Rightarrow> nat list" where
  "tableInputs s q rowName =
     filter (\<lambda>i. is_input (controls s ! i) \<and> c_name (controls s ! i) = rowName
                  \<and> q_id q \<in> set (c_inside (controls s ! i)))
       [0 ..< length (controls s)]"

text \<open>
  \<^verbatim>\<open>input.checked = b\<close>.  Checking a radio button unchecks the other radio buttons of
  its group, those of the same non-empty name.
\<close>

definition setChecked :: "nat \<Rightarrow> bool \<Rightarrow> form \<Rightarrow> form" where
  "setChecked i b s =
     s\<lparr>controls :=
         map (\<lambda>(j, k).
                if j = i then k\<lparr>c_checked := b\<rparr>
                else if b \<and> c_tag (controls s ! i) = INPUT Radio \<and> c_tag k = INPUT Radio
                        \<and> c_name k = c_name (controls s ! i) \<and> c_name k \<noteq> []
                then k\<lparr>c_checked := False\<rparr>
                else k)
           (enumerate 0 (controls s))\<rparr>"

subsection \<open>The fields behind an option "other"\<close>

definition otherInputId :: "string \<Rightarrow> string \<Rightarrow> string" where
  "otherInputId questionId v = ''other_'' @ questionId @ ''_'' @ v"

definition showOtherInput :: "string \<Rightarrow> string \<Rightarrow> form \<Rightarrow> form" where
  "showOtherInput questionId v s = addShow (otherInputId questionId v) s"

text \<open>
  \<^verbatim>\<open>_hideOtherInput\<close> removes \<^verbatim>\<open>show\<close> and empties the first \<^verbatim>\<open>input\<close> or
  \<^verbatim>\<open>textarea\<close> inside the element.
\<close>

definition firstField :: "form \<Rightarrow> string \<Rightarrow> nat option" where
  "firstField s container =
     find (\<lambda>i. (is_input (controls s ! i) \<or> c_tag (controls s ! i) = TEXTAREA)
                \<and> container \<in> set (c_inside (controls s ! i)))
       [0 ..< length (controls s)]"

definition hideOtherInput :: "string \<Rightarrow> string \<Rightarrow> form \<Rightarrow> form" where
  "hideOtherInput questionId v s =
     (case elems s (otherInputId questionId v) of
        None \<Rightarrow> s
      | Some e \<Rightarrow>
          (let s1 = s\<lparr>elems := (elems s)(otherInputId questionId v \<mapsto> e\<lparr>el_show := False\<rparr>)\<rparr>
           in case firstField s1 (otherInputId questionId v) of
                None \<Rightarrow> s1
              | Some i \<Rightarrow> s1\<lparr>controls := (controls s1)[i := (controls s1 ! i)\<lparr>c_value := []\<rparr>]\<rparr>))"

definition handleOtherField :: "string \<Rightarrow> string \<Rightarrow> form \<Rightarrow> form" where
  "handleOtherField name v s =
     (case map_of (otherFieldMap s) name of
        None \<Rightarrow> s
      | Some otherValues \<Rightarrow>
          fold (\<lambda>otherValue. if v = otherValue then showOtherInput name otherValue
                              else hideOtherInput name otherValue) otherValues s)"

text \<open>
  \<^verbatim>\<open>_handleRadioChange\<close> and \<^verbatim>\<open>_handleCheckboxChange\<close>, for the input at position
  \<open>i\<close>.  The limit on the number of checked boxes only greys labels out.
\<close>

definition handleRadioChange :: "nat \<Rightarrow> form \<Rightarrow> form" where
  "handleRadioChange i s =
     (let name = c_name (controls s ! i);
          v = (if c_checked (controls s ! i) then c_value (controls s ! i) else [])
      in handleOtherField name v (evaluate name ''radio'' s))"

definition handleCheckboxChange :: "nat \<Rightarrow> form \<Rightarrow> form" where
  "handleCheckboxChange i s =
     (let name = c_name (controls s ! i);
          v = c_value (controls s ! i);
          s1 = (case map_of (otherFieldMap s) name of
                  None \<Rightarrow> s
                | Some otherValues \<Rightarrow>
                    if v \<in> set otherValues
                    then (if c_checked (controls s ! i) then showOtherInput name v s
                          else hideOtherInput name v s)
                    else s)
      in evaluate name ''checkbox'' s1)"

subsection \<open>Selecting and deselecting\<close>

definition selectOptionCached :: "question \<Rightarrow> int \<Rightarrow> form \<Rightarrow> form" where
  "selectOptionCached q num s =
     (let inputs = optionInputs s q
      in if num < 1 \<or> num > int (length inputs) then s
         else
           (let i = inputs ! nat (num - 1)
            in if c_tag (controls s ! i) = INPUT Checkbox
               then handleCheckboxChange i (setChecked i (\<not> c_checked (controls s ! i)) s)
               else if c_checked (controls s ! i)
               then handleRadioChange i (setChecked i False s)
               else handleRadioChange i (setChecked i True s)))"

text \<open>\<^verbatim>\<open>parseInt(question.dataset.scaleMax || '10', 10)\<close>; the generator writes a number.\<close>

definition scaleMaxOf :: "question \<Rightarrow> int" where
  "scaleMaxOf q = (case q_scaleMax q of None \<Rightarrow> 10 | Some m \<Rightarrow> m)"

definition selectScaleValue :: "question \<Rightarrow> int \<Rightarrow> form \<Rightarrow> form" where
  "selectScaleValue q v s =
     (if v < 0 \<or> v > scaleMaxOf q then s
      else case find (\<lambda>i. parseInt10 (c_value (controls s ! i)) = Some v) (scaleInputs s q) of
             None \<Rightarrow> s
           | Some i \<Rightarrow>
               if c_checked (controls s ! i)
               then handleRadioChange i (setChecked i False s)
               else handleRadioChange i (setChecked i True s))"

definition selectTableRadio :: "question \<Rightarrow> string \<Rightarrow> nat \<Rightarrow> form \<Rightarrow> form" where
  "selectTableRadio q rowName radio s =
     (let wasChecked = c_checked (controls s ! radio);
          s1 = fold (\<lambda>r. setChecked r False) (tableInputs s q rowName) s
      in if \<not> wasChecked then setChecked radio True s1 else s1)"

text \<open>
  The callbacks \<^verbatim>\<open>onSelect\<close> that \<^verbatim>\<open>_handleNormalDigit\<close>, \<^verbatim>\<open>_handleScaleDigit\<close>
  and \<^verbatim>\<open>_handleTableDigit\<close> build are closures over the question (and the row); they are
  kept as data and run by \<open>onSelect\<close>.
\<close>

fun onSelect :: "select_target \<Rightarrow> int \<Rightarrow> form \<Rightarrow> form" where
  "onSelect (SelOption q) num s = selectOptionCached q num s"
| "onSelect (SelScale q) num s = selectScaleValue q num s"
| "onSelect (SelTableRow q rowName) num s =
     (let radios = tableInputs s q rowName
      in if num \<ge> 1 \<and> num \<le> int (length radios)
         then selectTableRadio q rowName (radios ! nat (num - 1)) s
         else s)"

text \<open>
  The number passed to a callback comes from \<^verbatim>\<open>parseInt\<close>.  With \<^verbatim>\<open>NaN\<close> no
  callback changes anything: every comparison with it is false and no input has that
  value.  The buffer only ever holds digits, so this does not arise.
\<close>

definition callOnSelect :: "select_target \<Rightarrow> int option \<Rightarrow> form \<Rightarrow> form" where
  "callOnSelect target num s = (case num of None \<Rightarrow> s | Some n \<Rightarrow> onSelect target n s)"

subsection \<open>Two-digit input\<close>

definition DIGIT_WAIT_MS :: nat where
  "DIGIT_WAIT_MS = 500"

definition handleTwoDigitInput :: "string \<Rightarrow> int \<Rightarrow> select_target \<Rightarrow> form \<Rightarrow> form" where
  "handleTwoDigitInput digit maxValue target s =
     (let pressedDigit = parseInt10 digit;
          maxFirstDigit = maxValue div 10
      in if digitBuffer s \<noteq> []
         then (case appendDigitBuffer digit s of
                 (combined, s1) \<Rightarrow> callOnSelect target (parseInt10 combined) (s1\<lparr>pendingSelect := None\<rparr>))
         else if (case pressedDigit of None \<Rightarrow> False | Some d \<Rightarrow> d \<ge> 1 \<and> d \<le> maxFirstDigit)
         then setDigitTimer target DIGIT_WAIT_MS ((setDigitBuffer digit s)\<lparr>pendingSelect := Some target\<rparr>)
         else callOnSelect target pressedDigit (s\<lparr>pendingSelect := None\<rparr>))"

text \<open>What the armed timer does when it expires.\<close>

definition digitTimerExpired :: "form \<Rightarrow> form" where
  "digitTimerExpired s =
     (case digitTimer s of
        None \<Rightarrow> s
      | Some (target, delay) \<Rightarrow>
          (let num = parseInt10 (digitBuffer s);
               s1 = clearDigitBuffer s
           in callOnSelect target num (s1\<lparr>pendingSelect := None\<rparr>)))"





section \<open>InputRouter\<close>

text \<open>
  \<^verbatim>\<open>_handleKeydown\<close> for the keys that print one character; Tab and Enter, which move
  between questions, are handled before and are not modelled.  The event carries what the
  handler reads from its surroundings: whether an open dialog took the key, and the kind
  of element that has the focus.

  The function gives what the handler does to the form.  When a dialog takes the key,
  or the focus is in a text or number input, a select or a text area, the handler returns
  at once without \<^verbatim>\<open>preventDefault\<close>: the key is then left to the dialog or typed by
  the browser into the field that has the focus, which is outside this function.  In
  every other case the focus is on no editable field and the key has no effect of its
  own on the form.
\<close>

datatype active_element = TextInput | TextareaEl | SelectEl | ButtonEl | OtherEl





section \<open>Auxiliary notions for the properties\<close>

text \<open>
  An entry is settled when the loop body of \<^verbatim>\<open>_evaluateRadio\<close> and
  \<^verbatim>\<open>_evaluateCheckbox\<close> takes one of its \<^verbatim>\<open>continue\<close> branches for it.
\<close>

definition settled :: "bool \<Rightarrow> cond \<Rightarrow> form \<Rightarrow> bool" where
  "settled b c s =
     (showAll s \<or> targetId c \<in> set (manualOverrides s)
      \<or> visibilityCache s (targetId c) = Some b \<or> elems s (target_el c) = None)"


text \<open>
  The condition that \<^verbatim>\<open>evaluate\<close> computes for an entry, from the answers of the
  parent at the time of the call: the expression of \<^verbatim>\<open>_evaluateCheckbox\<close> for the
  field type \<^verbatim>\<open>'checkbox'\<close>, that of \<^verbatim>\<open>_evaluateRadio\<close> otherwise.
\<close>

definition shouldShowFor :: "string \<Rightarrow> form \<Rightarrow> string \<Rightarrow> cond \<Rightarrow> bool" where
  "shouldShowFor fieldType s parentId c =
     (if fieldType = ''checkbox''
      then shouldShowCheckbox (map c_value (checkedInputs s parentId)) c
      else shouldShowRadio (radioValue s parentId) c)"

text \<open>
  The specification's notion of a visible question: neither the question nor any of its
  ancestors is a conditional element without the class \<^verbatim>\<open>show\<close> (the style sheet
  does not display such an element, nor anything inside it).
\<close>

definition displayed :: "form \<Rightarrow> string \<Rightarrow> bool" where
  "displayed s i =
     (case elems s i of
        None \<Rightarrow> False
      | Some e \<Rightarrow>
          (if el_conditional e then el_show e else True)
          \<and> list_all (\<lambda>a. if has_class_conditional s a then has_class_show s a else True)
                (el_ancestors e))"

text \<open>The operations of an evaluation pass.\<close>

datatype eval_op =
    Evaluate string string
  | ToggleManual string
  | OpenBranches string
  | CloseBranches string

fun runOp :: "eval_op \<Rightarrow> form \<Rightarrow> form" where
  "runOp (Evaluate parentId fieldType) s = evaluate parentId fieldType s"
| "runOp (ToggleManual t) s = toggleManual t s"
| "runOp (OpenBranches parentId) s = openBranchesForParent parentId s"
| "runOp (CloseBranches parentId) s = closeBranchesForParent parentId s"

text \<open>
  The numbers that the guards of the three selection callbacks turn away: a position
  outside the list of options or of the cells of the row, and for a scale a value below
  0, above the maximum of the scale, or carried by none of its inputs.
\<close>

definition outOfRange :: "select_target \<Rightarrow> int \<Rightarrow> form \<Rightarrow> bool" where
  "outOfRange target n s =
     (case target of
        SelOption q \<Rightarrow> n < 1 \<or> n > int (length (optionInputs s q))
      | SelTableRow q rowName \<Rightarrow> n < 1 \<or> n > int (length (tableInputs s q rowName))
      | SelScale q \<Rightarrow>
          n < 0 \<or> n > scaleMaxOf q
          \<or> \<not> list_ex (\<lambda>i. parseInt10 (c_value (controls s ! i)) = Some n) (scaleInputs s q))"

text \<open>The string \<^verbatim>\<open>e.key\<close> of the digit key \<open>d\<close>.\<close>

definition digitKey :: "nat \<Rightarrow> string" where
  "digitKey d = [''0123456789'' ! d]"

text \<open>
  The specification's reading of the query \<^verbatim>\<open>getForcedOverrideIds\<close>.  The current
  answer of a parent is the list of numbers it selects: all checked values for a
  multi-choice parent, the one checked value for a single-choice parent.  The condition
  governing a target is unsatisfied when, for every entry of the table with that target,
  the current answer of the entry's parent contains no value of the entry's trigger set.
\<close>

definition currentAnswer :: "form \<Rightarrow> string \<Rightarrow> int list" where
  "currentAnswer s parentId =
     (if hasCheckbox s parentId
      then List.map_filter parseInt10 (map c_value (checkedInputs s parentId))
      else List.map_filter parseInt10 (map c_value (take 1 (checkedInputs s parentId))))"

definition conditionUnsatisfied :: "form \<Rightarrow> string \<Rightarrow> bool" where
  "conditionUnsatisfied s t =
     (\<forall>(parentId, conditions) \<in> set (conditionMap s).
        \<forall>c \<in> set conditions.
          targetId c = t \<longrightarrow> set (currentAnswer s parentId) \<inter> set (showValues c) = {})"

text \<open>
  The cache agrees with the page for an entry: a cached value is the value of the class
  \<^verbatim>\<open>show\<close> of the entry's element.  The evaluator writes the cache only together
  with the class, and drops the cached value whenever an override or the show-all mode
  that forced the class ends.
\<close>

definition cacheCoherent :: "form \<Rightarrow> cond \<Rightarrow> bool" where
  "cacheCoherent s c =
     (case visibilityCache s (targetId c) of
        None \<Rightarrow> True
      | Some b \<Rightarrow> has_class_show s (target_el c) = b)"

text \<open>
  A control in the state \<^verbatim>\<open>_clearInputs\<close> leaves it in: a radio button or checkbox
  is unchecked, a text or number input and a text area are empty, a select is at its
  first option.  An input of another type, such as a date, only has to be unchecked.
\<close>

definition cleared :: "control \<Rightarrow> bool" where
  "cleared k =
     (case c_tag k of
        INPUT ty \<Rightarrow> \<not> is_checked k \<and> (if ty = Text \<or> ty = Number then c_value k = [] else True)
      | TEXTAREA \<Rightarrow> c_value k = []
      | SELECT \<Rightarrow> c_selectedIndex k = 0)"

text \<open>
  How one control may differ after an evaluation: not at all, or it was cleared because
  it lies inside one of the elements \<open>T\<close>.
\<close>

definition touched :: "string set \<Rightarrow> control \<Rightarrow> control \<Rightarrow> bool" where
  "touched T k k' = (k' = k \<or> (k' = clear_control k \<and> T \<inter> set (c_inside k) \<noteq> {}))"



section \<open>A small questionnaire\<close>

text \<open>
  A form of the shape the generator produces, used to run the code on concrete inputs.
  Section A holds the single-choice question A14.  Section B is shown when A14 is 2 or
  3; it holds the single-choice question B1, whose sub-question B1_1 (a date) is shown
  when B1 is 1, and B1_1 has a sub-question B1_1_a of its own.  The generator registers
  the condition of a section after those of its questions, so the table lists B1 first.
\<close>

text \<open>The identifier R001, as UTF-16 code units.\<close>

definition demoId :: "nat list" where
  "demoId = [0x52, 0x30, 0x30, 0x31]"

definition radioInput :: "string \<Rightarrow> string \<Rightarrow> string list \<Rightarrow> control" where
  "radioInput name v inside =
     \<lparr>c_tag = INPUT Radio, c_name = name, c_value = v, c_checked = False,
      c_selectedIndex = 0, c_inside = inside, c_in_options = True, c_in_scale_option = False\<rparr>"

definition dateInput :: "string \<Rightarrow> string \<Rightarrow> string list \<Rightarrow> control" where
  "dateInput name v inside =
     \<lparr>c_tag = INPUT Date, c_name = name, c_value = v, c_checked = False,
      c_selectedIndex = 0, c_inside = inside, c_in_options = False, c_in_scale_option = False\<rparr>"

definition plainElement :: "string list \<Rightarrow> element" where
  "plainElement anc =
     \<lparr>el_conditional = False, el_show = False, el_other_input = False, el_ancestors = anc\<rparr>"

definition conditionalElement :: "bool \<Rightarrow> string list \<Rightarrow> element" where
  "conditionalElement shown anc =
     \<lparr>el_conditional = True, el_show = shown, el_other_input = False, el_ancestors = anc\<rparr>"

definition plainQuestion :: "string \<Rightarrow> question" where
  "plainQuestion name = \<lparr>q_id = ''q_'' @ name, q_name = name, q_type = [], q_scaleMax = None\<rparr>"

definition demoControls :: "control list" where
  "demoControls =
     [radioInput ''A14'' ''1'' [''q_A14'', ''section_A''],
      radioInput ''A14'' ''2'' [''q_A14'', ''section_A''],
      radioInput ''A14'' ''3'' [''q_A14'', ''section_A''],
      radioInput ''B1'' ''1'' [''q_B1'', ''section_B''],
      radioInput ''B1'' ''2'' [''q_B1'', ''section_B''],
      dateInput ''B1_1'' [] [''q_B1_1'', ''q_B1'', ''section_B''],
      radioInput ''B1_1_a'' ''1'' [''q_B1_1_a'', ''q_B1_1'', ''q_B1'', ''section_B''],
      radioInput ''B1_1_a'' ''2'' [''q_B1_1_a'', ''q_B1_1'', ''q_B1'', ''section_B'']]"

definition demoElems :: "string \<rightharpoonup> element" where
  "demoElems =
     map_of
       [(''section_A'', plainElement []),
        (''section_B'', conditionalElement False []),
        (''q_A14'', plainElement [''section_A'']),
        (''q_B1'', plainElement [''section_B'']),
        (''q_B1_1'', conditionalElement False [''q_B1'', ''section_B'']),
        (''q_B1_1_a'', plainElement [''q_B1_1'', ''q_B1'', ''section_B''])]"

definition demoConditions :: "(string \<times> cond list) list" where
  "demoConditions =
     [(''B1'', [\<lparr>targetId = ''B1_1'', showValues = [1], isSection = False\<rparr>]),
      (''A14'', [\<lparr>targetId = ''section_B'', showValues = [2, 3], isSection = True\<rparr>])]"

definition demo :: form where
  "demo =
     \<lparr>questionIndex = -1, tableRowIndex = 0, digitBuffer = [], digitTimer = None,
      pendingSelect = None,
      questionList = [plainQuestion ''A14'', plainQuestion ''B1'', plainQuestion ''B1_1'',
                      plainQuestion ''B1_1_a''],
      conditionMap = demoConditions, tableConfigs = [], otherFieldMap = [],
      respondentId = Some demoId, idError = None, visibilityCache = Map.empty,
      manualOverrides = [], showAll = False, elems = demoElems, controls = demoControls,
      emitted = []\<rparr>"

text \<open>A form with one scale question, from 0 to 2.\<close>

definition scaleInput :: "string \<Rightarrow> string \<Rightarrow> string list \<Rightarrow> control" where
  "scaleInput name v inside =
     \<lparr>c_tag = INPUT Radio, c_name = name, c_value = v, c_checked = False,
      c_selectedIndex = 0, c_inside = inside, c_in_options = False, c_in_scale_option = True\<rparr>"

definition scaleQuestion :: question where
  "scaleQuestion = \<lparr>q_id = ''q_S1'', q_name = ''S1'', q_type = ''scale'', q_scaleMax = Some 2\<rparr>"

definition scaleDemo :: form where
  "scaleDemo =
     \<lparr>questionIndex = 0, tableRowIndex = 0, digitBuffer = [], digitTimer = None,
      pendingSelect = None, questionList = [scaleQuestion],
      conditionMap = [], tableConfigs = [], otherFieldMap = [],
      respondentId = Some demoId, idError = None, visibilityCache = Map.empty,
      manualOverrides = [], showAll = False,
      elems = map_of [(''q_S1'', plainElement [])],
      controls = [scaleInput ''S1'' ''0'' [''q_S1''], scaleInput ''S1'' ''1'' [''q_S1''],
                  scaleInput ''S1'' ''2'' [''q_S1'']],
      emitted = []\<rparr>"

text \<open>
  The small questionnaire with 2 answered to A14, and with section B and B1_1 opened by
  hand.
\<close>

definition overrideDemo :: form where
  "overrideDemo =
     toggleManual ''B1_1'' (toggleManual ''section_B'' (evaluate ''A14'' ''radio'' (setChecked 1 True demo)))"

text \<open>The small questionnaire with a date typed into B1_1.\<close>

definition dateDemo :: form where
  "dateDemo =
     demo\<lparr>controls :=
            demoControls[5 := dateInput ''B1_1'' ''2024-05-01'' [''q_B1_1'', ''q_B1'', ''section_B'']]\<rparr>"

text \<open>
  The small questionnaire after 2 was answered to A14 and evaluated, 1 was checked for
  B1, and the answer to A14 was changed to 1 but not yet evaluated.
\<close>

definition changedDemo :: form where
  "changedDemo =
     setChecked 0 True (setChecked 3 True (evaluate ''A14'' ''radio'' (setChecked 1 True demo)))"



section \<open>Properties\<close>

subsection \<open>What one evaluation step changes\<close>

lemma clearInputs_frame [simp]:
  "showAll (clearInputs k s) = showAll s"
  "manualOverrides (clearInputs k s) = manualOverrides s"
  "visibilityCache (clearInputs k s) = visibilityCache s"
  "conditionMap (clearInputs k s) = conditionMap s"
  "questionList (clearInputs k s) = questionList s"
  "questionIndex (clearInputs k s) = questionIndex s"
  "tableRowIndex (clearInputs k s) = tableRowIndex s"
  by (simp_all add: clearInputs_def)

lemma updateTarget_frame [simp]:
  "showAll (updateTarget b c s) = showAll s"
  "manualOverrides (updateTarget b c s) = manualOverrides s"
  "conditionMap (updateTarget b c s) = conditionMap s"
  "questionList (updateTarget b c s) = questionList s"
  "questionIndex (updateTarget b c s) = questionIndex s"
  "tableRowIndex (updateTarget b c s) = tableRowIndex s"
  by (simp_all add: updateTarget_def Let_def split: option.splits)

lemma updateTarget_cache_other:
  "t \<noteq> targetId c \<Longrightarrow> visibilityCache (updateTarget b c s) t = visibilityCache s t"
  by (simp add: updateTarget_def Let_def split: option.splits)

lemma updateTarget_elems_None:
  "(elems (updateTarget b c s) i = None) = (elems s i = None)"
  by (simp add: updateTarget_def Let_def clearInputs_def split: option.splits)

lemma settled_fix: "settled b c s \<Longrightarrow> updateTarget b c s = s"
  by (auto simp add: settled_def updateTarget_def)

lemma updateTarget_settles: "settled b c (updateTarget b c s)"
  by (auto simp add: settled_def updateTarget_def Let_def clearInputs_def split: option.splits)

lemma settled_preserved:
  "targetId c' \<noteq> targetId c \<Longrightarrow> settled b c s \<Longrightarrow> settled b c (updateTarget b' c' s)"
  by (auto simp add: settled_def updateTarget_cache_other updateTarget_elems_None)

lemma settled_fold:
  "targetId c \<notin> targetId ` set cs \<Longrightarrow> settled b c s
   \<Longrightarrow> settled b c (fold (\<lambda>c. updateTarget (f c) c) cs s)"
  by (induction cs arbitrary: s) (auto simp add: settled_preserved)

lemma fold_settles:
  "distinct (map targetId cs) \<Longrightarrow> c \<in> set cs
   \<Longrightarrow> settled (f c) c (fold (\<lambda>c. updateTarget (f c) c) cs s)"
proof (induction cs arbitrary: s)
  case Nil
  then show ?case by simp
next
  case (Cons a cs)
  show ?case
  proof (cases "c = a")
    case True
    with Cons.prems show ?thesis
      by (simp add: settled_fold updateTarget_settles)
  next
    case False
    with Cons show ?thesis by simp
  qed
qed

lemma fold_fix:
  "(\<And>c. c \<in> set cs \<Longrightarrow> updateTarget (f c) c s = s)
   \<Longrightarrow> fold (\<lambda>c. updateTarget (f c) c) cs s = s"
  by (induction cs) auto

lemma fold_update_idem:
  assumes "distinct (map targetId cs)"
  shows "fold (\<lambda>c. updateTarget (f c) c) cs (fold (\<lambda>c. updateTarget (f c) c) cs s)
         = fold (\<lambda>c. updateTarget (f c) c) cs s"
  by (rule fold_fix) (simp add: settled_fix fold_settles assms)

lemma fold_updateTarget_conditionMap [simp]:
  "conditionMap (fold (\<lambda>c. updateTarget (f c) c) cs s) = conditionMap s"
  by (induction cs arbitrary: s) auto

lemma evaluate_conditionMap [simp]: "conditionMap (evaluate P ft s) = conditionMap s"
  by (simp add: evaluate_def evaluateRadio_def evaluateCheckbox_def Let_def split: option.splits)

lemma evaluate_Some:
  "map_of (conditionMap t) P = Some conds \<Longrightarrow>
   evaluate P ft t = (if ft = ''checkbox'' then evaluateCheckbox P conds t else evaluateRadio P conds t)"
  by (simp add: evaluate_def)

lemma radioValue_alt:
  "radioValue s P = (case map c_value (checkedInputs s P) of [] \<Rightarrow> [] | v # _ \<Rightarrow> v)"
  by (simp add: radioValue_def split: list.splits)


subsection \<open>The cursor is not touched by the evaluator\<close>

lemma fold_updateTarget_cursor [simp]:
  "questionIndex (fold (\<lambda>c. updateTarget (f c) c) cs s) = questionIndex s"
  "tableRowIndex (fold (\<lambda>c. updateTarget (f c) c) cs s) = tableRowIndex s"
  "questionList (fold (\<lambda>c. updateTarget (f c) c) cs s) = questionList s"
  by (induction cs arbitrary: s) auto

lemma evaluate_cursor [simp]:
  "questionIndex (evaluate P ft s) = questionIndex s"
  "tableRowIndex (evaluate P ft s) = tableRowIndex s"
  "questionList (evaluate P ft s) = questionList s"
  by (simp_all add: evaluate_def evaluateRadio_def evaluateCheckbox_def Let_def split: option.splits)

lemma addShow_cursor [simp]:
  "questionIndex (addShow i s) = questionIndex s"
  "tableRowIndex (addShow i s) = tableRowIndex s"
  "questionList (addShow i s) = questionList s"
  "conditionMap (addShow i s) = conditionMap s"
  by (simp_all add: addShow_def split: option.splits)

lemma toggleManual_cursor [simp]:
  "questionIndex (toggleManual t s) = questionIndex s"
  "tableRowIndex (toggleManual t s) = tableRowIndex s"
  "questionList (toggleManual t s) = questionList s"
  by (simp_all add: toggleManual_def reevaluateForTarget_def Let_def split: option.splits prod.splits)

lemma openBranch_cursor [simp]:
  "questionIndex (openBranch c s) = questionIndex s"
  "tableRowIndex (openBranch c s) = tableRowIndex s"
  "questionList (openBranch c s) = questionList s"
  by (simp_all add: openBranch_def split: option.splits)

lemma fold_openBranch_cursor [simp]:
  "questionIndex (fold openBranch cs s) = questionIndex s"
  "tableRowIndex (fold openBranch cs s) = tableRowIndex s"
  "questionList (fold openBranch cs s) = questionList s"
  by (induction cs arbitrary: s) auto

lemma fold_closeBranch_cursor:
  "questionIndex (snd (fold closeBranch cs (b, s))) = questionIndex s
   \<and> tableRowIndex (snd (fold closeBranch cs (b, s))) = tableRowIndex s
   \<and> questionList (snd (fold closeBranch cs (b, s))) = questionList s"
  by (induction cs arbitrary: b s) (auto simp add: closeBranch_def)

lemma closeBranches_cursor [simp]:
  "questionIndex (closeBranchesForParent P s) = questionIndex s"
  "tableRowIndex (closeBranchesForParent P s) = tableRowIndex s"
  "questionList (closeBranchesForParent P s) = questionList s"
  using fold_closeBranch_cursor [of _ False s]
  by (auto simp add: closeBranchesForParent_def split: option.splits prod.splits)
     (metis snd_conv)+

lemma runOp_cursor [simp]:
  "questionIndex (runOp opn s) = questionIndex s"
  "tableRowIndex (runOp opn s) = tableRowIndex s"
  "questionList (runOp opn s) = questionList s"
  by (cases opn; simp add: openBranchesForParent_def split: option.splits)+


subsection \<open>The digit buffer is not touched by a selection\<close>

lemma clearInputs_digits [simp]:
  "digitBuffer (clearInputs k s) = digitBuffer s"
  "digitTimer (clearInputs k s) = digitTimer s"
  "otherFieldMap (clearInputs k s) = otherFieldMap s"
  by (simp_all add: clearInputs_def)

lemma updateTarget_digits [simp]:
  "digitBuffer (updateTarget b c s) = digitBuffer s"
  "digitTimer (updateTarget b c s) = digitTimer s"
  "otherFieldMap (updateTarget b c s) = otherFieldMap s"
  by (simp_all add: updateTarget_def Let_def split: option.splits)

lemma fold_updateTarget_digits [simp]:
  "digitBuffer (fold (\<lambda>c. updateTarget (f c) c) cs s) = digitBuffer s"
  "digitTimer (fold (\<lambda>c. updateTarget (f c) c) cs s) = digitTimer s"
  "otherFieldMap (fold (\<lambda>c. updateTarget (f c) c) cs s) = otherFieldMap s"
  by (induction cs arbitrary: s) auto

lemma evaluate_digits [simp]:
  "digitBuffer (evaluate P ft s) = digitBuffer s"
  "digitTimer (evaluate P ft s) = digitTimer s"
  "otherFieldMap (evaluate P ft s) = otherFieldMap s"
  by (simp_all add: evaluate_def evaluateRadio_def evaluateCheckbox_def Let_def split: option.splits)

lemma setChecked_digits [simp]:
  "digitBuffer (setChecked i b s) = digitBuffer s"
  "digitTimer (setChecked i b s) = digitTimer s"
  by (simp_all add: setChecked_def)

lemma fold_setChecked_digits [simp]:
  "digitBuffer (fold (\<lambda>r. setChecked r b) rs s) = digitBuffer s"
  "digitTimer (fold (\<lambda>r. setChecked r b) rs s) = digitTimer s"
  by (induction rs arbitrary: s) auto

lemma otherInput_digits [simp]:
  "digitBuffer (showOtherInput q v s) = digitBuffer s"
  "digitTimer (showOtherInput q v s) = digitTimer s"
  "digitBuffer (hideOtherInput q v s) = digitBuffer s"
  "digitTimer (hideOtherInput q v s) = digitTimer s"
  by (simp_all add: showOtherInput_def addShow_def hideOtherInput_def Let_def split: option.splits)

lemma fold_otherInput_digits:
  "digitBuffer (fold (\<lambda>ov. if v = ov then showOtherInput n ov else hideOtherInput n ov) ovs s)
     = digitBuffer s
   \<and> digitTimer (fold (\<lambda>ov. if v = ov then showOtherInput n ov else hideOtherInput n ov) ovs s)
     = digitTimer s"
  by (induction ovs arbitrary: s) auto

lemma handleOtherField_digits [simp]:
  "digitBuffer (handleOtherField n v s) = digitBuffer s"
  "digitTimer (handleOtherField n v s) = digitTimer s"
  by (simp_all add: handleOtherField_def fold_otherInput_digits split: option.splits)

lemma handleChange_digits [simp]:
  "digitBuffer (handleRadioChange i s) = digitBuffer s"
  "digitTimer (handleRadioChange i s) = digitTimer s"
  "digitBuffer (handleCheckboxChange i s) = digitBuffer s"
  "digitTimer (handleCheckboxChange i s) = digitTimer s"
  by (simp_all add: handleRadioChange_def handleCheckboxChange_def Let_def split: option.splits)

lemma onSelect_digits:
  "digitBuffer (onSelect target n s) = digitBuffer s \<and> digitTimer (onSelect target n s) = digitTimer s"
  by (cases target)
     (simp_all add: selectOptionCached_def selectScaleValue_def selectTableRadio_def Let_def
        split: option.splits)

subsection \<open>One pass of \<^verbatim>\<open>evaluate\<close> over the entries of a parent\<close>

lemma evaluate_fold:
  "map_of (conditionMap s) P = Some conds \<Longrightarrow>
   evaluate P ft s = fold (\<lambda>c. updateTarget (shouldShowFor ft s P c) c) conds s"
  by (simp add: evaluate_def evaluateRadio_def evaluateCheckbox_def shouldShowFor_def Let_def)

lemma updateTarget_establish:
  assumes "\<not> showAll s" "targetId c \<notin> set (manualOverrides s)"
    and "elems s (target_el c) = Some e" "\<not> el_other_input e" "cacheCoherent s c"
  shows "\<exists>e2. elems (updateTarget b c s) (target_el c) = Some e2 \<and> \<not> el_other_input e2
              \<and> el_show e2 = b
              \<and> visibilityCache (updateTarget b c s) (targetId c) = Some b"
  using assms
  by (auto simp add: updateTarget_def cacheCoherent_def has_class_show_def clearInputs_def
      hide_other_input_def Let_def)

lemma updateTarget_keeps_other:
  assumes "targetId c' \<noteq> targetId c" "target_el c' \<noteq> target_el c"
    and "elems s (target_el c) = Some e" "\<not> el_other_input e"
  shows "elems (updateTarget b c' s) (target_el c) = Some e
         \<and> visibilityCache (updateTarget b c' s) (targetId c) = visibilityCache s (targetId c)"
  using assms
  by (auto simp add: updateTarget_def clearInputs_def hide_other_input_def Let_def
      split: option.splits)

lemma fold_keeps_other:
  assumes "targetId c \<notin> targetId ` set cs" "target_el c \<notin> target_el ` set cs"
    and "elems s (target_el c) = Some e" "\<not> el_other_input e"
  shows "elems (fold (\<lambda>c. updateTarget (f c) c) cs s) (target_el c) = Some e
         \<and> visibilityCache (fold (\<lambda>c. updateTarget (f c) c) cs s) (targetId c)
             = visibilityCache s (targetId c)"
  using assms
proof (induction cs arbitrary: s)
  case Nil
  then show ?case by simp
next
  case (Cons a cs)
  have a: "targetId a \<noteq> targetId c" "target_el a \<noteq> target_el c"
    using Cons.prems by auto
  note k = updateTarget_keeps_other [OF a Cons.prems(3,4), of "f a"]
  have "elems (fold (\<lambda>c. updateTarget (f c) c) cs (updateTarget (f a) a s)) (target_el c) = Some e
        \<and> visibilityCache (fold (\<lambda>c. updateTarget (f c) c) cs (updateTarget (f a) a s)) (targetId c)
            = visibilityCache (updateTarget (f a) a s) (targetId c)"
    using Cons.prems k by (intro Cons.IH) auto
  with k show ?case by simp
qed

lemma fold_updateTarget_mode [simp]:
  "showAll (fold (\<lambda>c. updateTarget (f c) c) cs s) = showAll s"
  "manualOverrides (fold (\<lambda>c. updateTarget (f c) c) cs s) = manualOverrides s"
  by (induction cs arbitrary: s) auto

lemma fold_establishes:
  assumes dt: "distinct (map targetId conds)" and de: "distinct (map target_el conds)"
    and c: "c \<in> set conds"
    and mode: "\<not> showAll s" "targetId c \<notin> set (manualOverrides s)"
    and el: "elems s (target_el c) = Some e" "\<not> el_other_input e"
    and coh: "cacheCoherent s c"
  shows "has_class_show (fold (\<lambda>c. updateTarget (f c) c) conds s) (target_el c) = f c
         \<and> visibilityCache (fold (\<lambda>c. updateTarget (f c) c) conds s) (targetId c) = Some (f c)"
proof -
  from c obtain pre post where sp: "conds = pre @ c # post"
    by (auto simp add: in_set_conv_decomp)
  let ?F = "\<lambda>cs s. fold (\<lambda>c. updateTarget (f c) c) cs s"
  have npre: "targetId c \<notin> targetId ` set pre" "target_el c \<notin> target_el ` set pre"
    and npost: "targetId c \<notin> targetId ` set post" "target_el c \<notin> target_el ` set post"
    using dt de sp by auto
  note p = fold_keeps_other [OF npre el, of f]
  let ?s1 = "?F pre s"
  have coh1: "cacheCoherent ?s1 c"
    using p coh el by (auto simp add: cacheCoherent_def has_class_show_def split: option.splits)
  have m1: "\<not> showAll ?s1" "targetId c \<notin> set (manualOverrides ?s1)"
    using mode by simp_all
  note est = updateTarget_establish [OF m1 p [THEN conjunct1] el(2) coh1, of "f c"]
  let ?s2 = "updateTarget (f c) c ?s1"
  obtain e2 where e2: "elems ?s2 (target_el c) = Some e2" "\<not> el_other_input e2" "el_show e2 = f c"
    and c2: "visibilityCache ?s2 (targetId c) = Some (f c)"
    using est by blast
  note q = fold_keeps_other [OF npost e2(1,2), of f]
  have "?F conds s = ?F post ?s2" by (simp add: sp)
  with q c2 e2 show ?thesis by (simp add: has_class_show_def)
qed

lemma includes_parsed_ex:
  "list_ex (includes_parsed vals) xs = (set (List.map_filter parseInt10 xs) \<inter> set vals \<noteq> {})"
  by (induction xs)
     (auto simp add: includes_parsed_def List.map_filter_simps split: option.splits)

lemma includes_parsed_iff:
  "includes_parsed vals v = (\<exists>n \<in> set vals. parseInt10 v = Some n)"
  by (auto simp add: includes_parsed_def split: option.splits)


subsection \<open>C1: what \<^verbatim>\<open>evaluate\<close> shows\<close>

text \<open>
  Claim C1.  Let \<open>c\<close> be an entry of the parent, with show-all mode off and no manual
  override on its target.  After \<^verbatim>\<open>evaluate\<close> the target has the class \<^verbatim>\<open>show\<close>
  exactly when the condition holds for the answers the parent had at the call: for a
  single-choice parent the selected value is not empty and its number is in the trigger
  set, for a multi-choice parent the numbers of the checked values meet the trigger
  set.  The entries of the parent name distinct targets and distinct elements, the
  target's element exists in the page and is not the box of an "other" field, and the
  cache agrees with the page for the entry; the evaluation leaves the cache in
  agreement with the page.
\<close>

theorem evaluate_shows_iff_condition:
  assumes tab: "map_of (conditionMap s) parentId = Some conds"
    and dt: "distinct (map targetId conds)" and de: "distinct (map target_el conds)"
    and c: "c \<in> set conds"
    and mode: "\<not> showAll s" "targetId c \<notin> set (manualOverrides s)"
    and el: "elems s (target_el c) = Some e" "\<not> el_other_input e"
    and coh: "cacheCoherent s c"
  shows "has_class_show (evaluate parentId fieldType s) (target_el c) =
           (if fieldType = ''checkbox''
            then set (List.map_filter parseInt10 (map c_value (checkedInputs s parentId)))
                   \<inter> set (showValues c) \<noteq> {}
            else radioValue s parentId \<noteq> []
                 \<and> (\<exists>n \<in> set (showValues c). parseInt10 (radioValue s parentId) = Some n))
         \<and> cacheCoherent (evaluate parentId fieldType s) c"
  using fold_establishes [OF dt de c mode el coh, of "shouldShowFor fieldType s parentId"]
  by (simp add: evaluate_fold [OF tab] shouldShowFor_def shouldShowCheckbox_def shouldShowRadio_def
      includes_parsed_ex includes_parsed_iff cacheCoherent_def)

theorem evaluate_shows_iff_condition_witness:
  "radioValue (setChecked 1 True demo) ''A14'' = ''2''
   \<and> parseInt10 ''2'' = Some 2
   \<and> has_class_show (evaluate ''A14'' ''radio'' (setChecked 1 True demo)) ''section_B''"
proof -
  let ?s = "setChecked 1 True demo"
  let ?c = "\<lparr>targetId = ''section_B'', showValues = [2, 3], isSection = True\<rparr>"
  have tab: "map_of (conditionMap ?s) ''A14'' = Some [?c]"
    by (simp add: setChecked_def demo_def demoConditions_def)
  have dt: "distinct (map targetId [?c])" and de: "distinct (map target_el [?c])"
    and c: "?c \<in> set [?c]"
    by simp_all
  have mode: "\<not> showAll ?s" "targetId ?c \<notin> set (manualOverrides ?s)"
    by (simp_all add: setChecked_def demo_def)
  have el: "elems ?s (target_el ?c) = Some (conditionalElement False [])"
    "\<not> el_other_input (conditionalElement False [])"
    by (simp_all add: setChecked_def demo_def demoElems_def target_el_def conditionalElement_def)
  have coh: "cacheCoherent ?s ?c"
    by (simp add: cacheCoherent_def setChecked_def demo_def)
  have rv: "radioValue ?s ''A14'' = ''2''" by code_simp
  have p: "parseInt10 ''2'' = Some 2" by code_simp
  have t: "target_el ?c = ''section_B''" by (simp add: target_el_def)
  from evaluate_shows_iff_condition [OF tab dt de c mode el coh, of "''radio''"] rv p t
  show ?thesis by simp
qed

subsection \<open>C4: what hiding and showing do to the inputs\<close>

lemma clear_control_idem [simp]: "clear_control (clear_control k) = clear_control k"
  by (cases "c_tag k") (auto simp add: clear_control_def is_checked_def)

lemma clear_control_inside [simp]: "c_inside (clear_control k) = c_inside k"
  by (cases "c_tag k") (auto simp add: clear_control_def)

lemma cleared_clear_control [simp]: "cleared (clear_control k)"
  by (cases "c_tag k") (auto simp add: clear_control_def cleared_def is_checked_def)

lemma touched_refl [simp]: "touched T k k"
  by (simp add: touched_def)

lemma touched_trans: "touched T k k' \<Longrightarrow> touched T k' k'' \<Longrightarrow> touched T k k''"
  by (auto simp add: touched_def)

lemma touched_inside: "touched T k k' \<Longrightarrow> c_inside k' = c_inside k"
  by (auto simp add: touched_def)

lemma touched_cleared: "touched T k k' \<Longrightarrow> cleared k \<Longrightarrow> cleared k'"
  by (auto simp add: touched_def)

lemma list_all2_touched_refl [simp]: "list_all2 (touched T) ks ks"
  by (simp add: list_all2_refl)

lemma clearInputs_touched:
  "i \<in> T \<Longrightarrow> list_all2 (touched T) (controls s) (controls (clearInputs i s))"
  by (auto simp add: clearInputs_def list_all2_conv_all_nth touched_def)

lemma updateTarget_touched:
  "(\<not> b \<Longrightarrow> target_el c \<in> T) \<Longrightarrow> list_all2 (touched T) (controls s) (controls (updateTarget b c s))"
  using clearInputs_touched [of "target_el c" T]
  by (auto simp add: updateTarget_def Let_def clearInputs_def split: option.splits)

lemma fold_touched:
  "(\<And>c. c \<in> set cs \<Longrightarrow> \<not> f c \<Longrightarrow> target_el c \<in> T)
   \<Longrightarrow> list_all2 (touched T) (controls s) (controls (fold (\<lambda>c. updateTarget (f c) c) cs s))"
proof (induction cs arbitrary: s)
  case Nil
  then show ?case by simp
next
  case (Cons a cs)
  have 1: "list_all2 (touched T) (controls s) (controls (updateTarget (f a) a s))"
    by (rule updateTarget_touched) (simp add: Cons.prems)
  have 2: "list_all2 (touched T) (controls (updateTarget (f a) a s))
             (controls (fold (\<lambda>c. updateTarget (f c) c) cs (updateTarget (f a) a s)))"
    by (rule Cons.IH) (simp add: Cons.prems)
  have "list_all2 (touched T) (controls s)
          (controls (fold (\<lambda>c. updateTarget (f c) c) cs (updateTarget (f a) a s)))"
    by (rule list_all2_trans [OF _ 1 2]) (rule touched_trans)
  then show ?case by simp
qed

lemma fold_updateTarget_elems_None:
  "(elems (fold (\<lambda>c. updateTarget (f c) c) cs s) i = None) = (elems s i = None)"
  by (induction cs arbitrary: s) (auto simp add: updateTarget_elems_None)

lemma fold_updateTarget_cache_other:
  "t \<notin> targetId ` set cs \<Longrightarrow>
   visibilityCache (fold (\<lambda>c. updateTarget (f c) c) cs s) t = visibilityCache s t"
  by (induction cs arbitrary: s) (auto simp add: updateTarget_cache_other)

lemma updateTarget_hides_clears:
  assumes "\<not> showAll s" "targetId c \<notin> set (manualOverrides s)"
    and "visibilityCache s (targetId c) \<noteq> Some False" "elems s (target_el c) \<noteq> None"
    and "k \<in> set (controls (updateTarget False c s))" "target_el c \<in> set (c_inside k)"
  shows "cleared k"
  using assms
  by (auto simp add: updateTarget_def clearInputs_def Let_def split: if_splits)

lemma fold_hides_clears:
  assumes dt: "distinct (map targetId conds)"
    and c: "c \<in> set conds" and fc: "\<not> f c"
    and mode: "\<not> showAll s" "targetId c \<notin> set (manualOverrides s)"
    and vis: "visibilityCache s (targetId c) \<noteq> Some False" "elems s (target_el c) \<noteq> None"
    and k: "k \<in> set (controls (fold (\<lambda>c. updateTarget (f c) c) conds s))"
      "target_el c \<in> set (c_inside k)"
  shows "cleared k"
proof -
  from c obtain pre post where sp: "conds = pre @ c # post"
    by (auto simp add: in_set_conv_decomp)
  let ?F = "\<lambda>cs s. fold (\<lambda>c. updateTarget (f c) c) cs s"
  let ?s1 = "?F pre s"
  let ?s2 = "updateTarget False c ?s1"
  have npre: "targetId c \<notin> targetId ` set pre"
    using dt sp by auto
  have v1: "visibilityCache ?s1 (targetId c) \<noteq> Some False" "elems ?s1 (target_el c) \<noteq> None"
    using vis npre by (simp_all add: fold_updateTarget_cache_other fold_updateTarget_elems_None)
  have m1: "\<not> showAll ?s1" "targetId c \<notin> set (manualOverrides ?s1)"
    using mode by simp_all
  have fin: "?F conds s = ?F post ?s2"
    using fc by (simp add: sp)
  have t: "list_all2 (touched UNIV) (controls ?s2) (controls (?F post ?s2))"
    by (rule fold_touched) simp
  from k(1) obtain i where i: "i < length (controls (?F post ?s2))" "k = controls (?F post ?s2) ! i"
    unfolding fin by (auto simp add: in_set_conv_nth)
  have len: "length (controls ?s2) = length (controls (?F post ?s2))"
    using t by (rule list_all2_lengthD)
  have ti: "touched UNIV (controls ?s2 ! i) k"
    using t i len by (simp add: list_all2_conv_all_nth)
  have "cleared (controls ?s2 ! i)"
  proof (rule updateTarget_hides_clears [OF m1 v1])
    show "controls ?s2 ! i \<in> set (controls ?s2)" using i len by simp
    show "target_el c \<in> set (c_inside (controls ?s2 ! i))"
      using k(2) touched_inside [OF ti] by simp
  qed
  with ti show ?thesis by (rule touched_cleared)
qed

text \<open>
  What one evaluation does to the controls.  If a target that was visible is hidden by
  the evaluation, every control inside it ends up cleared: radio buttons and
  checkboxes unchecked, text and number inputs and text areas empty, selects at their
  first option.  No control is added or removed, and a control changes only when it
  lies inside a target whose condition fails; showing a target changes no control.
\<close>

lemma evaluate_clears_hidden_targets:
  assumes tab: "map_of (conditionMap s) parentId = Some conds"
    and dt: "distinct (map targetId conds)"
    and mode: "\<not> showAll s"
  shows "(\<forall>c \<in> set conds.
            targetId c \<notin> set (manualOverrides s) \<and> has_class_show s (target_el c)
            \<and> cacheCoherent s c \<and> \<not> shouldShowFor fieldType s parentId c
            \<longrightarrow> (\<forall>k \<in> set (controls (evaluate parentId fieldType s)).
                   target_el c \<in> set (c_inside k) \<longrightarrow> cleared k))
       \<and> length (controls (evaluate parentId fieldType s)) = length (controls s)
       \<and> (\<forall>i < length (controls s).
            (\<forall>c \<in> set conds. target_el c \<in> set (c_inside (controls s ! i))
                               \<longrightarrow> shouldShowFor fieldType s parentId c)
            \<longrightarrow> controls (evaluate parentId fieldType s) ! i = controls s ! i)"
proof -
  let ?f = "shouldShowFor fieldType s parentId"
  let ?s' = "fold (\<lambda>c. updateTarget (?f c) c) conds s"
  let ?T = "{target_el c | c. c \<in> set conds \<and> \<not> ?f c}"
  have ev: "evaluate parentId fieldType s = ?s'"
    by (rule evaluate_fold [OF tab])
  have t: "list_all2 (touched ?T) (controls s) (controls ?s')"
    by (rule fold_touched) auto
  have len: "length (controls ?s') = length (controls s)"
    using t by (simp add: list_all2_lengthD)
  have hide: "cleared k"
    if c: "c \<in> set conds" and o: "targetId c \<notin> set (manualOverrides s)"
      and v: "has_class_show s (target_el c)" and coh: "cacheCoherent s c" and fc: "\<not> ?f c"
      and k: "k \<in> set (controls ?s')" "target_el c \<in> set (c_inside k)" for c k
  proof -
    have v1: "visibilityCache s (targetId c) \<noteq> Some False"
      using v coh by (auto simp add: cacheCoherent_def split: option.splits)
    have v2: "elems s (target_el c) \<noteq> None"
      using v by (auto simp add: has_class_show_def split: option.splits)
    show ?thesis
      by (rule fold_hides_clears [OF dt c fc mode o v1 v2 k])
  qed
  have keep: "controls ?s' ! i = controls s ! i"
    if i: "i < length (controls s)"
      and sh: "\<forall>c \<in> set conds. target_el c \<in> set (c_inside (controls s ! i)) \<longrightarrow> ?f c" for i
  proof -
    have "touched ?T (controls s ! i) (controls ?s' ! i)"
      using t i by (simp add: list_all2_conv_all_nth)
    moreover have "?T \<inter> set (c_inside (controls s ! i)) = {}"
      using sh by auto
    ultimately show ?thesis by (simp add: touched_def)
  qed
  show ?thesis
    unfolding ev using hide len keep by blast
qed

lemma evaluate_clears_hidden_targets_example:
  "has_class_show changedDemo ''section_B''
   \<and> \<not> shouldShowFor ''radio'' changedDemo ''A14''
          \<lparr>targetId = ''section_B'', showValues = [2, 3], isSection = True\<rparr>
   \<and> is_checked (controls changedDemo ! 3)
   \<and> cleared (controls (evaluate ''A14'' ''radio'' changedDemo) ! 3)
   \<and> controls (evaluate ''A14'' ''radio'' changedDemo) ! 0 = controls changedDemo ! 0"
proof -
  let ?c = "\<lparr>targetId = ''section_B'', showValues = [2, 3], isSection = True\<rparr>"
  let ?s' = "evaluate ''A14'' ''radio'' changedDemo"
  have tab: "map_of (conditionMap changedDemo) ''A14'' = Some [?c]" by code_simp
  have dt: "distinct (map targetId [?c])" by simp
  have mode: "\<not> showAll changedDemo" by code_simp
  note th = evaluate_clears_hidden_targets [OF tab dt mode, of "''radio''"]
  have o: "targetId ?c \<notin> set (manualOverrides changedDemo)" by code_simp
  have v: "has_class_show changedDemo (target_el ?c)" by code_simp
  have coh: "cacheCoherent changedDemo ?c" by code_simp
  have fc: "\<not> shouldShowFor ''radio'' changedDemo ''A14'' ?c" by code_simp
  have l: "length (controls changedDemo) = 8" by code_simp
  have ins3: "target_el ?c \<in> set (c_inside (controls changedDemo ! 3))" by code_simp
  have ins0: "target_el ?c \<notin> set (c_inside (controls changedDemo ! 0))" by code_simp
  have chk: "is_checked (controls changedDemo ! 3)" by code_simp
  have len: "length (controls ?s') = 8"
    using th l by simp
  have k: "controls ?s' ! 3 \<in> set (controls ?s')"
    using len by simp
  have ins3': "target_el ?c \<in> set (c_inside (controls ?s' ! 3))" by code_simp
  have a: "cleared (controls ?s' ! 3)"
    using th [THEN conjunct1] o v coh fc k ins3' by auto
  have b: "controls ?s' ! 0 = controls changedDemo ! 0"
    using th [THEN conjunct2, THEN conjunct2] l ins0 by auto
  have v': "has_class_show changedDemo ''section_B''"
    using v by (simp add: target_el_def)
  from v' fc chk a b show ?thesis by simp
qed

text \<open>
  Claim C4 at a failing input.  On the small questionnaire a date has been typed into
  B1_1, which lies in section B.  Answering 2 to A14 shows section B; changing the
  answer to 1 hides it.  The date input is inside the hidden section and still holds
  the date: \<^verbatim>\<open>_clearInputs\<close> empties the inputs of type text and number only.
\<close>

theorem date_input_keeps_value_when_hidden:
  "has_class_show (evaluate ''A14'' ''radio'' (setChecked 1 True dateDemo)) ''section_B''
   \<and> \<not> has_class_show
        (evaluate ''A14'' ''radio''
          (setChecked 0 True (evaluate ''A14'' ''radio'' (setChecked 1 True dateDemo)))) ''section_B''
   \<and> ''section_B'' \<in> set (c_inside (controls
        (evaluate ''A14'' ''radio''
          (setChecked 0 True (evaluate ''A14'' ''radio'' (setChecked 1 True dateDemo)))) ! 5))
   \<and> c_value (controls
        (evaluate ''A14'' ''radio''
          (setChecked 0 True (evaluate ''A14'' ''radio'' (setChecked 1 True dateDemo)))) ! 5)
       = ''2024-05-01''"
  by code_simp

subsection \<open>C5: evaluating twice\<close>

text \<open>
  Claim C5.  Evaluating a parent a second time, with the parent's answers unchanged,
  changes nothing: the state after the second call is the state after the first, so no
  visibility is toggled and no input is cleared.  The entries of the parent name
  distinct targets, as the data model requires.
\<close>

theorem evaluate_idempotent:
  assumes dist: "\<forall>conds. map_of (conditionMap s) P = Some conds \<longrightarrow> distinct (map targetId conds)"
    and same: "map c_value (checkedInputs (evaluate P ft s) P) = map c_value (checkedInputs s P)"
  shows "evaluate P ft (evaluate P ft s) = evaluate P ft s"
proof (cases "map_of (conditionMap s) P")
  case None
  then show ?thesis by (simp add: evaluate_def)
next
  case (Some conds)
  with dist have d: "distinct (map targetId conds)" by simp
  have cm: "map_of (conditionMap (evaluate P ft s)) P = Some conds"
    using Some by simp
  show ?thesis
  proof (cases "ft = ''checkbox''")
    case True
    have e1: "evaluate P ft s = evaluateCheckbox P conds s"
      using Some True by (simp add: evaluate_def)
    have "evaluate P ft (evaluate P ft s) = evaluateCheckbox P conds (evaluate P ft s)"
      using evaluate_Some [OF cm, of ft] True by simp
    also have "\<dots> = fold (\<lambda>c. updateTarget (shouldShowCheckbox (map c_value (checkedInputs s P)) c) c)
                       conds (evaluate P ft s)"
      using same by (simp add: evaluateCheckbox_def)
    also have "\<dots> = evaluate P ft s"
      unfolding e1 evaluateCheckbox_def Let_def by (rule fold_update_idem [OF d])
    finally show ?thesis .
  next
    case False
    have e1: "evaluate P ft s = evaluateRadio P conds s"
      using Some False by (simp add: evaluate_def)
    have rv: "radioValue (evaluate P ft s) P = radioValue s P"
      using same by (simp add: radioValue_alt)
    have "evaluate P ft (evaluate P ft s) = evaluateRadio P conds (evaluate P ft s)"
      using evaluate_Some [OF cm, of ft] False by simp
    also have "\<dots> = fold (\<lambda>c. updateTarget (shouldShowRadio (radioValue s P) c) c)
                       conds (evaluate P ft s)"
      using rv by (simp add: evaluateRadio_def)
    also have "\<dots> = evaluate P ft s"
      unfolding e1 evaluateRadio_def Let_def by (rule fold_update_idem [OF d])
    finally show ?thesis .
  qed
qed

theorem evaluate_idempotent_witness:
  "map_of (conditionMap (setChecked 1 True demo)) ''A14''
     = Some [\<lparr>targetId = ''section_B'', showValues = [2, 3], isSection = True\<rparr>]
   \<and> map c_value (checkedInputs (evaluate ''A14'' ''radio'' (setChecked 1 True demo)) ''A14'')
     = map c_value (checkedInputs (setChecked 1 True demo) ''A14'')
   \<and> has_class_show (evaluate ''A14'' ''radio'' (setChecked 1 True demo)) ''section_B''
   \<and> evaluate ''A14'' ''radio'' (evaluate ''A14'' ''radio'' (setChecked 1 True demo))
     = evaluate ''A14'' ''radio'' (setChecked 1 True demo)"
proof -
  have m: "map_of (conditionMap (setChecked 1 True demo)) ''A14''
             = Some [\<lparr>targetId = ''section_B'', showValues = [2, 3], isSection = True\<rparr>]"
    by (simp add: setChecked_def demo_def demoConditions_def)
  have d: "\<forall>conds. map_of (conditionMap (setChecked 1 True demo)) ''A14'' = Some conds
             \<longrightarrow> distinct (map targetId conds)"
    using m by auto
  have same: "map c_value (checkedInputs (evaluate ''A14'' ''radio'' (setChecked 1 True demo)) ''A14'')
                = map c_value (checkedInputs (setChecked 1 True demo) ''A14'')"
    by code_simp
  have shown: "has_class_show (evaluate ''A14'' ''radio'' (setChecked 1 True demo)) ''section_B''"
    by code_simp
  from evaluate_idempotent [OF d same] m same shown show ?thesis by blast
qed

subsection \<open>C2: two-digit input\<close>

lemma below_ten: "(d::nat) < 10 \<Longrightarrow> d \<in> {0, 1, 2, 3, 4, 5, 6, 7, 8, 9}"
  by auto

lemma digitKey_char:
  assumes "d < 10"
  shows "is_digit (''0123456789'' ! d) \<and> \<not> is_ws (''0123456789'' ! d)
         \<and> ''0123456789'' ! d \<noteq> CHR ''-'' \<and> ''0123456789'' ! d \<noteq> CHR ''+''
         \<and> digit_of (''0123456789'' ! d) = d"
  using below_ten [OF assms]
  by (auto simp add: is_digit_def is_ws_def digit_of_def)

lemma parseInt10_digitKey:
  "d < 10 \<Longrightarrow> parseInt10 (digitKey d) = Some (int d)"
  using digitKey_char [of d]
  by (simp add: parseInt10_def digitKey_def digits_value_def Let_def)

lemma parseInt10_two_digits:
  "b < 10 \<Longrightarrow> d < 10 \<Longrightarrow> parseInt10 (digitKey b @ digitKey d) = Some (int (10 * b + d))"
  using digitKey_char [of b] digitKey_char [of d]
  by (simp add: parseInt10_def digitKey_def digits_value_def Let_def)

text \<open>
  Claim C2.  A digit \<open>d\<close> is pressed; \<open>m\<close> is the number of options, so that
  \<open>m div 10\<close> is the largest first digit; the buffer is empty or holds one digit
  \<open>b\<close>.  With a digit in the buffer the buffer is emptied, its timer cancelled, and
  \<open>10 * b + d\<close> is committed at once.  Otherwise, if \<open>1 \<le> d \<le> m div 10\<close>, the digit
  is only buffered and a timer of 500 ms is armed; nothing is committed until the timer
  expires, which commits \<open>d\<close> alone and leaves no timer and an empty buffer.
  Otherwise \<open>d\<close> is committed at once and nothing is buffered.
\<close>

theorem two_digit_input:
  assumes d: "d < 10"
    and buf: "digitBuffer s = [] \<or> (b < 10 \<and> digitBuffer s = digitKey b)"
  shows "handleTwoDigitInput (digitKey d) m target s =
           (if digitBuffer s \<noteq> []
            then onSelect target (int (10 * b + d))
                   (s\<lparr>digitTimer := None, digitBuffer := [],
                      emitted := emitted s @ [DigitBufferChange []], pendingSelect := None\<rparr>)
            else if 1 \<le> d \<and> int d \<le> m div 10
            then s\<lparr>digitBuffer := digitKey d,
                   emitted := emitted s @ [DigitBufferChange (digitKey d)],
                   pendingSelect := Some target, digitTimer := Some (target, 500)\<rparr>
            else onSelect target (int d) (s\<lparr>pendingSelect := None\<rparr>))
         \<and> (digitBuffer s = [] \<and> 1 \<le> d \<and> int d \<le> m div 10 \<longrightarrow>
              digitTimerExpired (handleTwoDigitInput (digitKey d) m target s) =
                onSelect target (int d)
                  (s\<lparr>digitTimer := None, digitBuffer := [],
                     emitted := emitted s @ [DigitBufferChange (digitKey d), DigitBufferChange []],
                     pendingSelect := None\<rparr>)
              \<and> digitTimer (digitTimerExpired (handleTwoDigitInput (digitKey d) m target s)) = None
              \<and> digitBuffer (digitTimerExpired (handleTwoDigitInput (digitKey d) m target s)) = [])"
proof (cases "digitBuffer s = []")
  case True
  then show ?thesis
    using d
    by (simp add: handleTwoDigitInput_def parseInt10_digitKey callOnSelect_def Let_def
        setDigitTimer_def setDigitBuffer_def clearDigitTimer_def clearDigitBuffer_def emit_def
        DIGIT_WAIT_MS_def digitTimerExpired_def onSelect_digits)
next
  case False
  with buf have b: "b < 10" "digitBuffer s = digitKey b" by auto
  then show ?thesis
    using d False
    by (simp add: handleTwoDigitInput_def parseInt10_two_digits callOnSelect_def Let_def
        appendDigitBuffer_def clearDigitTimer_def clearDigitBuffer_def emit_def)
qed

theorem two_digit_input_witness:
  "(1::nat) < 10 \<and> digitBuffer demo = [] \<and> int 1 \<le> 14 div 10
   \<and> digitBuffer (handleTwoDigitInput (digitKey 1) 14 (SelOption (plainQuestion ''A14'')) demo)
       = digitKey 1
   \<and> digitTimer (handleTwoDigitInput (digitKey 1) 14 (SelOption (plainQuestion ''A14'')) demo)
       = Some (SelOption (plainQuestion ''A14''), 500)
   \<and> digitTimer (digitTimerExpired
         (handleTwoDigitInput (digitKey 1) 14 (SelOption (plainQuestion ''A14'')) demo)) = None"
proof -
  let ?T = "SelOption (plainQuestion ''A14'')"
  have b: "digitBuffer demo = []" by (simp add: demo_def)
  have p1: "(1::nat) < 10" by simp
  have p2: "digitBuffer demo = [] \<or> ((0::nat) < 10 \<and> digitBuffer demo = digitKey 0)"
    using b by simp
  note th = two_digit_input [OF p1 p2, of 14 ?T]
  have eq: "handleTwoDigitInput (digitKey 1) 14 ?T demo =
              demo\<lparr>digitBuffer := digitKey 1,
                   emitted := emitted demo @ [DigitBufferChange (digitKey 1)],
                   pendingSelect := Some ?T, digitTimer := Some (?T, 500)\<rparr>"
    using th [THEN conjunct1] b by simp
  have ante: "digitBuffer demo = [] \<and> 1 \<le> (1::nat) \<and> int 1 \<le> 14 div 10"
    using b by simp
  have ex: "digitTimer (digitTimerExpired (handleTwoDigitInput (digitKey 1) 14 ?T demo)) = None"
    using th [THEN conjunct2, THEN mp, OF ante] by blast
  have e1: "digitBuffer (handleTwoDigitInput (digitKey 1) 14 ?T demo) = digitKey 1"
    by (subst eq) simp
  have e2: "digitTimer (handleTwoDigitInput (digitKey 1) 14 ?T demo) = Some (?T, 500)"
    by (subst eq) simp
  show ?thesis
    using b e1 e2 ex by simp
qed


subsection \<open>C3: where the cursor lands\<close>

text \<open>
  The two scans return the nearest position, after or before the cursor, that
  \<^verbatim>\<open>isVisible\<close> reports visible.
\<close>

lemma nextVisible_Some:
  "nextVisible s i = Some j \<Longrightarrow>
   i \<le> j \<and> j < int (length (questionList s)) \<and> visibleAt s j
   \<and> (\<forall>k. i \<le> k \<and> k < j \<longrightarrow> \<not> visibleAt s k)"
proof (induction s i rule: nextVisible.induct)
  case (1 s i)
  show ?case
  proof (cases "i < int (length (questionList s)) \<and> \<not> visibleAt s i")
    case True
    then have "nextVisible s (i + 1) = Some j"
      using "1.prems" by (simp add: nextVisible.simps [of s i])
    with True "1.IH" have "i + 1 \<le> j \<and> j < int (length (questionList s)) \<and> visibleAt s j
        \<and> (\<forall>k. i + 1 \<le> k \<and> k < j \<longrightarrow> \<not> visibleAt s k)"
      by simp
    with True show ?thesis
      by (metis add.commute add1_zle_eq less_le linorder_not_less zless_add1_eq)
  next
    case False
    then show ?thesis
      using "1.prems" by (auto simp add: nextVisible.simps [of s i] split: if_splits)
  qed
qed

lemma nextVisible_None:
  "nextVisible s i = None \<Longrightarrow> i \<le> k \<Longrightarrow> \<not> visibleAt s k"
proof (induction s i rule: nextVisible.induct)
  case (1 s i)
  show ?case
  proof (cases "i < int (length (questionList s))")
    case True
    with "1.prems" have nv: "\<not> visibleAt s i" "nextVisible s (i + 1) = None"
      by (auto simp add: nextVisible.simps [of s i] split: if_splits)
    show ?thesis
    proof (cases "k = i")
      case True
      with nv show ?thesis by simp
    next
      case False
      with "1.prems" have "i + 1 \<le> k" by simp
      with "1.IH" True nv show ?thesis by simp
    qed
  next
    case False
    with "1.prems" show ?thesis
      by (simp add: visibleAt_def questionAt_def)
  qed
qed

lemma prevVisible_Some:
  "prevVisible s i = Some j \<Longrightarrow>
   0 \<le> j \<and> j \<le> i \<and> visibleAt s j \<and> (\<forall>k. j < k \<and> k \<le> i \<longrightarrow> \<not> visibleAt s k)"
proof (induction s i rule: prevVisible.induct)
  case (1 s i)
  show ?case
  proof (cases "i \<ge> 0 \<and> \<not> visibleAt s i")
    case True
    then have "prevVisible s (i - 1) = Some j"
      using "1.prems" by (simp add: prevVisible.simps [of s i])
    with True "1.IH" have "0 \<le> j \<and> j \<le> i - 1 \<and> visibleAt s j
        \<and> (\<forall>k. j < k \<and> k \<le> i - 1 \<longrightarrow> \<not> visibleAt s k)"
      by simp
    with True show ?thesis
      by (metis add.commute add1_zle_eq diff_add_cancel less_le linorder_not_less zless_add1_eq)
  next
    case False
    then show ?thesis
      using "1.prems" by (auto simp add: prevVisible.simps [of s i] split: if_splits)
  qed
qed

lemma prevVisible_None:
  "prevVisible s i = None \<Longrightarrow> k \<le> i \<Longrightarrow> \<not> visibleAt s k"
proof (induction s i rule: prevVisible.induct)
  case (1 s i)
  show ?case
  proof (cases "i \<ge> 0")
    case True
    with "1.prems" have nv: "\<not> visibleAt s i" "prevVisible s (i - 1) = None"
      by (auto simp add: prevVisible.simps [of s i] split: if_splits)
    show ?thesis
    proof (cases "k = i")
      case True
      with nv show ?thesis by simp
    next
      case False
      with "1.prems" have "k \<le> i - 1" by simp
      with "1.IH" True nv show ?thesis by simp
    qed
  next
    case False
    with "1.prems" show ?thesis
      by (simp add: visibleAt_def questionAt_def)
  qed
qed


text \<open>
  The transitions of the cursor.  On a table question \<^verbatim>\<open>moveNext\<close> below the last
  row and \<^verbatim>\<open>movePrev\<close> above the first row only step the row.  Otherwise
  \<^verbatim>\<open>moveNext\<close> lands on the next position that \<^verbatim>\<open>isVisible\<close> reports visible,
  with the row reset to 0, and emits the end event when there is none;
  \<^verbatim>\<open>movePrev\<close> lands on the previous such position, on the last row if the question
  is a table, and on the identifier entry when there is none.
\<close>

lemma setQuestionIndex_lands:
  "-1 \<le> j \<Longrightarrow> j < int (length (questionList s)) \<Longrightarrow>
   questionIndex (setQuestionIndex j row s) = j
   \<and> tableRowIndex (setQuestionIndex j row s)
       = (if isTable (questionAt s j) then (case row of None \<Rightarrow> 0 | Some r \<Rightarrow> r) else 0)
   \<and> elems (setQuestionIndex j row s) = elems s
   \<and> questionList (setQuestionIndex j row s) = questionList s"
  by (auto simp add: setQuestionIndex_def Let_def emit_def getCurrentQuestion_def questionAt_def
      isTable_def split: option.splits)

lemma visibleAt_cong:
  assumes "elems t = elems s" "questionList t = questionList s"
  shows "visibleAt t j = visibleAt s j"
proof -
  have a: "has_class_conditional t = (\<lambda>i. case elems s i of None \<Rightarrow> False | Some e \<Rightarrow> el_conditional e)"
    "has_class_conditional s = (\<lambda>i. case elems s i of None \<Rightarrow> False | Some e \<Rightarrow> el_conditional e)"
    using assms by (simp_all add: has_class_conditional_def fun_eq_iff)
  have b: "has_class_show t = (\<lambda>i. case elems s i of None \<Rightarrow> False | Some e \<Rightarrow> el_show e)"
    "has_class_show s = (\<lambda>i. case elems s i of None \<Rightarrow> False | Some e \<Rightarrow> el_show e)"
    using assms by (simp_all add: has_class_show_def fun_eq_iff)
  show ?thesis
    by (simp add: visibleAt_def questionAt_def isVisible_def a b assms split: option.splits)
qed

lemma moveNext_row:
  assumes "isTable (getCurrentQuestion s)" "0 \<le> tableRowIndex s"
    and "tableRowIndex s < maxRowOf (getTableConfig s)"
  shows "moveNext s = emit (TableRowChange (tableRowIndex s + 1)) (s\<lparr>tableRowIndex := tableRowIndex s + 1\<rparr>)"
  using assms
  by (cases "getTableConfig s") (auto simp add: moveNext_def setTableRowIndex_def maxRowOf_def)

lemma moveNext_scan:
  assumes "\<not> (isTable (getCurrentQuestion s) \<and> tableRowIndex s < maxRowOf (getTableConfig s))"
    and "-1 \<le> questionIndex s"
  shows "case nextVisible s (questionIndex s + 1) of
           Some j \<Rightarrow>
             questionIndex (moveNext s) = j \<and> tableRowIndex (moveNext s) = 0
             \<and> questionIndex s < j \<and> visibleAt (moveNext s) j
             \<and> (\<forall>k. questionIndex s < k \<and> k < j \<longrightarrow> \<not> visibleAt s k)
         | None \<Rightarrow>
             moveNext s = emit ReachEnd s \<and> (\<forall>k. questionIndex s < k \<longrightarrow> \<not> visibleAt s k)"
proof (cases "nextVisible s (questionIndex s + 1)")
  case None
  then show ?thesis
    using assms(1) nextVisible_None [OF None] by (auto simp add: moveNext_def)
next
  case (Some j)
  note nv = nextVisible_Some [OF Some]
  have mv: "moveNext s = setQuestionIndex j None s"
    using assms(1) Some by (auto simp add: moveNext_def)
  have j: "-1 \<le> j" "j < int (length (questionList s))" using nv assms(2) by auto
  note l = setQuestionIndex_lands [OF j, of None]
  have "visibleAt (moveNext s) j = visibleAt s j"
    unfolding mv by (rule visibleAt_cong) (simp_all add: l)
  with nv l show ?thesis
    by (simp add: Some mv)
qed

lemma movePrev_row:
  assumes "isTable (getCurrentQuestion s)" "0 < tableRowIndex s"
    and "tableRowIndex s \<le> maxRowOf (getTableConfig s)"
  shows "movePrev s = emit (TableRowChange (tableRowIndex s - 1)) (s\<lparr>tableRowIndex := tableRowIndex s - 1\<rparr>)"
  using assms
  by (cases "getTableConfig s") (auto simp add: movePrev_def setTableRowIndex_def maxRowOf_def)

lemma movePrev_scan:
  assumes "\<not> (isTable (getCurrentQuestion s) \<and> tableRowIndex s > 0)"
    and "questionIndex s \<le> int (length (questionList s))"
  shows "case prevVisible s (questionIndex s - 1) of
           Some j \<Rightarrow>
             questionIndex (movePrev s) = j \<and> j < questionIndex s \<and> visibleAt (movePrev s) j
             \<and> (\<forall>k. j < k \<and> k < questionIndex s \<longrightarrow> \<not> visibleAt s k)
             \<and> tableRowIndex (movePrev s)
                 = (case questionAt s j of
                      None \<Rightarrow> 0
                    | Some q \<Rightarrow> if q_type q = ''table''
                                then maxRowOf (map_of (tableConfigs s) (q_name q)) else 0)
         | None \<Rightarrow>
             questionIndex (movePrev s) = -1 \<and> tableRowIndex (movePrev s) = 0
             \<and> (\<forall>k. k < questionIndex s \<longrightarrow> \<not> visibleAt s k)"
proof (cases "prevVisible s (questionIndex s - 1)")
  case None
  have "movePrev s = setQuestionIndex (-1) None s"
    using assms(1) None by (auto simp add: movePrev_def)
  then show ?thesis
    using prevVisible_None [OF None]
    by (simp add: None setQuestionIndex_def Let_def emit_def getCurrentQuestion_def questionAt_def)
next
  case (Some j)
  note pv = prevVisible_Some [OF Some]
  have j: "-1 \<le> j" "j < int (length (questionList s))" using pv assms(2) by auto
  let ?row = "if isTable (questionAt s j)
              then Some (maxRowOf (case questionAt s j of None \<Rightarrow> None
                                   | Some q \<Rightarrow> map_of (tableConfigs s) (q_name q)))
              else None"
  have mv: "movePrev s = setQuestionIndex j ?row s"
    using assms(1) Some by (auto simp add: movePrev_def)
  note l = setQuestionIndex_lands [OF j, of ?row]
  have "visibleAt (movePrev s) j = visibleAt s j"
    unfolding mv by (rule visibleAt_cong) (simp_all add: l)
  with pv l show ?thesis
    by (auto simp add: Some mv isTable_def split: option.splits)
qed

text \<open>
  Claim C3 at a failing input.  On the small questionnaire the operator answers 2 to
  A14 (section B appears), 1 to B1 (B1_1 appears), then changes A14 to 1: section B is
  hidden and its inputs are cleared, but B1_1 keeps its class \<^verbatim>\<open>show\<close>.  From A14,
  \<^verbatim>\<open>moveNext\<close> skips B1 and B1_1 and lands on B1_1_a, the fourth question, which lies
  inside the hidden section B and is not displayed: \<^verbatim>\<open>isVisible\<close> looks at the question
  and at its nearest conditional ancestor only.
\<close>

theorem moveNext_lands_inside_hidden_section:
  "questionIndex
     (moveNext (setQuestionIndex 0 None
        (onSelect (SelOption (plainQuestion ''A14'')) 1
          (onSelect (SelOption (plainQuestion ''B1'')) 1
            (onSelect (SelOption (plainQuestion ''A14'')) 2 demo))))) = 3
   \<and> \<not> displayed
     (moveNext (setQuestionIndex 0 None
        (onSelect (SelOption (plainQuestion ''A14'')) 1
          (onSelect (SelOption (plainQuestion ''B1'')) 1
            (onSelect (SelOption (plainQuestion ''A14'')) 2 demo))))) ''q_B1_1_a''"
  by code_simp

subsection \<open>C7: a digit key without a question or without an identifier\<close>


text \<open>
  Blank identifiers: the empty one, and those made of white space only, also of the
  ideographic space and the no-break space that \<^verbatim>\<open>trim\<close> strips.
\<close>

lemma blank_identifiers:
  "jsTrim [] = []" "jsTrim [0x20, 0x09] = []" "jsTrim [0x3000] = []" "jsTrim [0xA0, 0x3000, 0x20] = []"
  "jsTrim [0x3000, 0x41, 0x20] = [0x41]"
  by (simp_all add: jsTrim_def jsWhiteSpace_def)





subsection \<open>C8: the cursor during an evaluation pass\<close>

text \<open>
  Claim C8, as the code has it.  No operation of an evaluation pass moves the cursor:
  after any sequence of \<^verbatim>\<open>evaluate\<close>, \<^verbatim>\<open>toggleManual\<close>,
  \<^verbatim>\<open>openBranchesForParent\<close> and \<^verbatim>\<open>closeBranchesForParent\<close> the question index,
  the table row and the question list are what they were.  The cursor therefore stays
  on its question also when the pass hides that question.
\<close>

theorem evaluation_pass_keeps_cursor:
  "questionIndex (fold runOp ops s) = questionIndex s
   \<and> tableRowIndex (fold runOp ops s) = tableRowIndex s
   \<and> questionList (fold runOp ops s) = questionList s"
  by (induction ops arbitrary: s) auto

text \<open>
  Claim C8 as stated fails.  Section B is opened by hand and the cursor is moved to
  B1, which is visible; closing the override re-evaluates A14, hides section B, and
  leaves the cursor on B1, now hidden.
\<close>

theorem cursor_left_on_hidden_question:
  "questionIndex (moveNext (moveNext (runOp (ToggleManual ''section_B'') demo))) = 1
   \<and> visibleAt (moveNext (moveNext (runOp (ToggleManual ''section_B'') demo))) 1
   \<and> questionIndex (runOp (ToggleManual ''section_B'')
        (moveNext (moveNext (runOp (ToggleManual ''section_B'') demo)))) = 1
   \<and> \<not> visibleAt (runOp (ToggleManual ''section_B'')
        (moveNext (moveNext (runOp (ToggleManual ''section_B'') demo)))) 1"
  by code_simp

subsection \<open>C6: overrides that are really forced\<close>

lemma entryMet_currentAnswer:
  "entryMet s parentId c = (set (currentAnswer s parentId) \<inter> set (showValues c) \<noteq> {})"
proof (cases "hasCheckbox s parentId")
  case True
  then show ?thesis
    by (simp add: entryMet_def currentAnswer_def includes_parsed_ex)
next
  case False
  then show ?thesis
    using includes_parsed_ex [of "showValues c" "map c_value (take 1 (checkedInputs s parentId))"]
    by (cases "checkedInputs s parentId") (simp_all add: entryMet_def currentAnswer_def List.map_filter_simps)
qed

lemma isConditionMet_iff: "isConditionMet s t = (\<not> conditionUnsatisfied s t)"
  by (simp add: isConditionMet_def conditionUnsatisfied_def list_ex_iff entryMet_currentAnswer
      split_beta)

text \<open>
  Claim C6.  \<^verbatim>\<open>getForcedOverrideIds\<close> returns exactly the targets that are in the
  override set and whose governing condition is unsatisfied: the current answer of the
  governing parent, single- or multi-choice, contains no value of the trigger set.  The
  targets come in the order in which they were overridden.  The result is empty when the
  condition of every overridden target is met, and when nothing is overridden.
\<close>

theorem forced_override_ids:
  "getForcedOverrideIds s = filter (conditionUnsatisfied s) (manualOverrides s)
   \<and> set (getForcedOverrideIds s) = {t. t \<in> set (manualOverrides s) \<and> conditionUnsatisfied s t}
   \<and> ((\<forall>t \<in> set (manualOverrides s). \<not> conditionUnsatisfied s t) \<longrightarrow> getForcedOverrideIds s = [])
   \<and> (manualOverrides s = [] \<longrightarrow> getForcedOverrideIds s = [])"
  by (auto simp add: getForcedOverrideIds_def isConditionMet_iff filter_empty_conv)

theorem forced_override_ids_witness:
  "manualOverrides overrideDemo = [''section_B'', ''B1_1'']
   \<and> conditionUnsatisfied overrideDemo ''B1_1''
   \<and> \<not> conditionUnsatisfied overrideDemo ''section_B''
   \<and> getForcedOverrideIds overrideDemo = [''B1_1'']"
proof -
  have o: "manualOverrides overrideDemo = [''section_B'', ''B1_1'']" by code_simp
  have u1: "conditionUnsatisfied overrideDemo ''B1_1''" by code_simp
  have u2: "\<not> conditionUnsatisfied overrideDemo ''section_B''" by code_simp
  have "getForcedOverrideIds overrideDemo
          = filter (conditionUnsatisfied overrideDemo) (manualOverrides overrideDemo)"
    using forced_override_ids [of overrideDemo] by blast
  with o u1 u2 show ?thesis by simp
qed

subsection \<open>C10: committing a number that selects nothing\<close>

lemma find_None_list_ex: "\<not> list_ex P xs \<Longrightarrow> find P xs = None"
  by (simp add: find_None_iff list_ex_iff)

text \<open>
  Claim C10, as the code has it.  Committing a number that the guard of the question's
  callback turns away changes nothing at all: for a list of options and for a table row
  a number below 1 or above the number of inputs, for a scale a value below 0, above the
  maximum of the scale or carried by no input of the scale.  No input is dereferenced
  before the guard, so nothing can fail.
\<close>

theorem commit_out_of_range_noop:
  "outOfRange target n s \<Longrightarrow> onSelect target n s = s"
proof (cases target)
  case (SelOption q)
  assume "outOfRange target n s"
  with SelOption show ?thesis
    by (auto simp add: outOfRange_def selectOptionCached_def Let_def)
next
  case (SelScale q)
  assume "outOfRange target n s"
  with SelScale show ?thesis
    by (auto simp add: outOfRange_def selectScaleValue_def find_None_list_ex)
next
  case (SelTableRow q rowName)
  assume "outOfRange target n s"
  with SelTableRow show ?thesis
    by (auto simp add: outOfRange_def Let_def)
qed

theorem commit_out_of_range_noop_witness:
  "outOfRange (SelOption (plainQuestion ''A14'')) 4 demo
   \<and> onSelect (SelOption (plainQuestion ''A14'')) 4 demo = demo"
proof -
  have h: "outOfRange (SelOption (plainQuestion ''A14'')) 4 demo"
    by (simp add: outOfRange_def optionInputs_def demo_def demoControls_def radioInput_def
        dateInput_def closestQuestion_def plainQuestion_def)
  show ?thesis using h commit_out_of_range_noop [OF h] by simp
qed

text \<open>
  Claim C10 as stated does not hold for a scale: 0 is below 1, yet on a scale from 0 to
  2 committing 0 checks the input of value 0.
\<close>

theorem scale_zero_is_selected:
  "(0::int) < 1
   \<and> map c_checked (controls (onSelect (SelScale scaleQuestion) 0 scaleDemo))
       \<noteq> map c_checked (controls scaleDemo)"
  by code_simp

subsection \<open>C9: leaving show-all mode\<close>



lemma showAllTarget_False_frame [simp]:
  "showAll (showAllTarget False c s) = showAll s"
  "manualOverrides (showAllTarget False c s) = manualOverrides s"
  "conditionMap (showAllTarget False c s) = conditionMap s"
  "elems (showAllTarget False c s) = elems s"
  "controls (showAllTarget False c s) = controls s"
  by (simp_all add: showAllTarget_def split: option.splits)





lemma clear_control_name [simp]:
  "c_name (clear_control k) = c_name k" "c_tag (clear_control k) = c_tag k"
  by (cases "c_tag k"; simp add: clear_control_def)+










lemma evaluate_mode [simp]:
  "showAll (evaluate P ft s) = showAll s"
  "manualOverrides (evaluate P ft s) = manualOverrides s"
  by (simp_all add: evaluate_def evaluateRadio_def evaluateCheckbox_def Let_def split: option.splits)







end
